theory Spec2Isabelle
  imports Complex_Main
begin

section \<open>Python strings\<close>

text \<open>
  Python \<^verbatim>\<open>str\<close> values are modelled as \<^typ>\<open>string\<close>, the UTF-8 encoding of the
  text. Addresses, network ids and keys are ASCII, and \<^verbatim>\<open>str.lower\<close>, which the source
  applies to addresses only, is modelled on the ASCII range. Names are any text; the
  non-ASCII literals of the source (the em dash placeholder and the ellipsis of
  \<^verbatim>\<open>short_addr\<close>) are written as their UTF-8 bytes.
\<close>

definition is_upper :: "char \<Rightarrow> bool" where
  "is_upper c = (65 \<le> (of_char c :: nat) \<and> (of_char c :: nat) \<le> 90)"

definition lower_char :: "char \<Rightarrow> char" where
  "lower_char c = (if is_upper c then char_of ((of_char c :: nat) + 32) else c)"

definition lower :: "string \<Rightarrow> string" where
  "lower s = map lower_char s"

definition startswith :: "string \<Rightarrow> string \<Rightarrow> bool" where
  "startswith s p = (take (length p) s = p)"

definition rstrip_where :: "(char \<Rightarrow> bool) \<Rightarrow> string \<Rightarrow> string" where
  "rstrip_where P s = rev (dropWhile P (rev s))"

definition rstrip :: "string \<Rightarrow> string \<Rightarrow> string" where
  "rstrip s cs = rstrip_where (\<lambda>c. c \<in> set cs) s"

text \<open>
  \<^verbatim>\<open>str.strip()\<close> removes, at both ends, every character \<open>c\<close> with \<^verbatim>\<open>c.isspace()\<close>. These
  are the code points U+0009 to U+000D, U+001C to U+0020, U+0085, U+00A0, U+1680,
  U+2000 to U+200A, U+2028, U+2029, U+202F, U+205F and U+3000; \<open>WHITESPACE\<close> lists their
  UTF-8 encodings. In a UTF-8 text an encoded character at the start (at the end) is
  that character, so the characters are removed as byte sequences: \<open>lstrip_any ws s\<close>
  removes from the start of \<open>s\<close> the sequences of \<open>ws\<close> until none is left there, and
  \<open>rstrip_any\<close> does the same at the end.
\<close>

definition WHITESPACE :: "string list" where
  "WHITESPACE =
     [[CHR 0x09], [CHR 0x0A], [CHR 0x0B], [CHR 0x0C], [CHR 0x0D],
      [CHR 0x1C], [CHR 0x1D], [CHR 0x1E], [CHR 0x1F], [CHR 0x20],
      [CHR 0xC2, CHR 0x85], [CHR 0xC2, CHR 0xA0],
      [CHR 0xE1, CHR 0x9A, CHR 0x80],
      [CHR 0xE2, CHR 0x80, CHR 0x80], [CHR 0xE2, CHR 0x80, CHR 0x81],
      [CHR 0xE2, CHR 0x80, CHR 0x82], [CHR 0xE2, CHR 0x80, CHR 0x83],
      [CHR 0xE2, CHR 0x80, CHR 0x84], [CHR 0xE2, CHR 0x80, CHR 0x85],
      [CHR 0xE2, CHR 0x80, CHR 0x86], [CHR 0xE2, CHR 0x80, CHR 0x87],
      [CHR 0xE2, CHR 0x80, CHR 0x88], [CHR 0xE2, CHR 0x80, CHR 0x89],
      [CHR 0xE2, CHR 0x80, CHR 0x8A],
      [CHR 0xE2, CHR 0x80, CHR 0xA8], [CHR 0xE2, CHR 0x80, CHR 0xA9],
      [CHR 0xE2, CHR 0x80, CHR 0xAF],
      [CHR 0xE2, CHR 0x81, CHR 0x9F],
      [CHR 0xE3, CHR 0x80, CHR 0x80]]"

function lstrip_any :: "string list \<Rightarrow> string \<Rightarrow> string" where
  "lstrip_any ws s =
     (case find (\<lambda>w. w \<noteq> [] \<and> startswith s w) ws of
        None \<Rightarrow> s
      | Some w \<Rightarrow> lstrip_any ws (drop (length w) s))"
  by pat_completeness auto
termination
proof (relation "measure (\<lambda>(ws, s). length s)")
  show "wf (measure (\<lambda>(ws, s). length s))" by simp
next
  fix ws :: "string list" and s w :: string
  assume "find (\<lambda>w. w \<noteq> [] \<and> startswith s w) ws = Some w"
  then have "w \<noteq> []" and "take (length w) s = w"
    by (auto simp: find_Some_iff startswith_def)
  then have "s \<noteq> []" and "0 < length w" by auto
  then show "((ws, drop (length w) s), (ws, s)) \<in> measure (\<lambda>(ws, s). length s)"
    by simp
qed

declare lstrip_any.simps [simp del]

definition rstrip_any :: "string list \<Rightarrow> string \<Rightarrow> string" where
  "rstrip_any ws s = rev (lstrip_any (map rev ws) (rev s))"

definition strip :: "string \<Rightarrow> string" where
  "strip s = rstrip_any WHITESPACE (lstrip_any WHITESPACE s)"

text \<open>Whether a text starts, or ends, with a whitespace character.\<close>

definition ws_at_start :: "string \<Rightarrow> bool" where
  "ws_at_start s = list_ex (\<lambda>w. startswith s w) WHITESPACE"

definition ws_at_end :: "string \<Rightarrow> bool" where
  "ws_at_end s = list_ex (\<lambda>w. startswith (rev s) (rev w)) WHITESPACE"

definition EM_DASH :: string where
  "EM_DASH = [CHR 0xE2, CHR 0x80, CHR 0x94]"

definition ELLIPSIS :: string where
  "ELLIPSIS = [CHR 0xE2, CHR 0x80, CHR 0xA6]"

section \<open>Address normalization and keys\<close>

text \<open>
  \<^verbatim>\<open>def normalize_address(net_id, addr):
      if not addr: return addr
      return addr.lower() if addr.startswith("0x") else addr\<close>
\<close>

definition normalize_address :: "string \<Rightarrow> string \<Rightarrow> string" where
  "normalize_address net_id addr =
     (if addr = [] then addr
      else if startswith addr ''0x'' then lower addr else addr)"

definition key_for :: "string \<Rightarrow> string \<Rightarrow> string" where
  "key_for net_id addr = net_id @ '':'' @ normalize_address net_id addr"

text \<open>
  \<^verbatim>\<open>def short_addr(addr):
      return addr if len(addr) <= 10 else f"{addr[:6]}...{addr[-4:]}"\<close>
  (the three dots stand for the one-character ellipsis of the source).
\<close>

definition short_addr :: "string \<Rightarrow> string" where
  "short_addr addr =
     (if length addr \<le> 10 then addr
      else take 6 addr @ ELLIPSIS @ drop (length addr - 4) addr)"

text \<open>
  Two characters are case variants when they are equal or are the upper-case and the
  lower-case form of one ASCII letter; two strings differ only in letter case when they
  are case variants position by position.
\<close>

definition case_variant :: "char \<Rightarrow> char \<Rightarrow> bool" where
  "case_variant x y =
     (x = y \<or> (is_upper x \<and> (of_char y :: nat) = of_char x + 32)
            \<or> (is_upper y \<and> (of_char x :: nat) = of_char y + 32))"

definition differ_only_in_case :: "string \<Rightarrow> string \<Rightarrow> bool" where
  "differ_only_in_case a b = list_all2 case_variant a b"

section \<open>Configuration model\<close>

text \<open>
  A token is the dictionary \<^verbatim>\<open>{"network_id", "address", "custom_name"}\<close>. The settings of
  a profile are the dictionary that \<^verbatim>\<open>_ensure_profile_settings\<close> populates; floats
  (the opacity) are kept as rationals. \<^verbatim>\<open>self.state\<close> is the record \<open>app_state\<close>: the
  profiles are an insertion-ordered dictionary, kept as an association list in
  declaration order.
\<close>

record token =
  network_id :: string
  address :: string
  custom_name :: string

record psettings =
  monitor_index :: "int option"
  opacity :: rat
  font_family :: string
  font_px :: int
  font_color :: string
  click_through :: bool
  show_logo :: bool
  refresh_sec :: int
  use_custom_names :: bool
  separator_text :: string
  bold_name :: bool
  bold_price :: bool
  bold_changes :: bool

record gsettings =
  g_refresh_sec :: int
  g_opacity :: rat
  g_font_family :: string
  g_font_px :: int
  g_font_color :: string
  g_hotkey :: string

record app_state =
  profiles :: "(string \<times> token list) list"
  active_profile :: string
  token_names :: "string \<rightharpoonup> string"
  token_logos :: "string \<rightharpoonup> string"
  profile_settings :: "string \<rightharpoonup> psettings"
  settings :: gsettings

text \<open>
  \<^verbatim>\<open>_ensure_profile_settings(s, name)\<close> fills every missing key of the profile's settings
  from the defaults (\<^verbatim>\<open>setdefault\<close>) and returns the settings; \<^verbatim>\<open>ps_for\<close> is that call on
  \<^verbatim>\<open>self.state\<close>. The value read is the stored record, or the defaults when the profile
  has none yet.
\<close>

definition default_profile_settings :: "gsettings \<Rightarrow> psettings" where
  "default_profile_settings g =
     \<lparr>monitor_index = None, opacity = g_opacity g, font_family = g_font_family g,
      font_px = g_font_px g, font_color = g_font_color g, click_through = True,
      show_logo = True, refresh_sec = g_refresh_sec g, use_custom_names = False,
      separator_text = ''|'', bold_name = True, bold_price = False,
      bold_changes = False\<rparr>"

definition ps_for :: "app_state \<Rightarrow> string \<Rightarrow> psettings" where
  "ps_for st profile =
     (case profile_settings st profile of
        None \<Rightarrow> default_profile_settings (settings st)
      | Some ps \<Rightarrow> ps)"

text \<open>
  \<^verbatim>\<open>def tokens_for(self, profile):
      toks = self.state["profiles"].get(profile, [])
      for t in toks:
          t.setdefault("custom_name","")
          t["address"] = normalize_address(t["network_id"], t["address"])
      return toks\<close>
\<close>

definition tokens_for :: "app_state \<Rightarrow> string \<Rightarrow> token list" where
  "tokens_for st profile =
     map (\<lambda>t. t\<lparr>address := normalize_address (network_id t) (address t)\<rparr>)
       (case map_of (profiles st) profile of None \<Rightarrow> [] | Some toks \<Rightarrow> toks)"

section \<open>Insertion-ordered \<^verbatim>\<open>defaultdict(list)\<close>\<close>

text \<open>
  \<^verbatim>\<open>d[k].append(v)\<close> on a \<^verbatim>\<open>defaultdict(list)\<close>: the value is appended to the list of an
  existing key, a new key is added at the end with the one-element list.
\<close>

fun dd_append :: "('k \<times> 'v list) list \<Rightarrow> 'k \<Rightarrow> 'v \<Rightarrow> ('k \<times> 'v list) list" where
  "dd_append [] k v = [(k, [v])]"
| "dd_append ((k', vs) # d) k v =
     (if k' = k then (k', vs @ [v]) # d else (k', vs) # dd_append d k v)"

definition dd_get :: "('k \<times> 'v list) list \<Rightarrow> 'k \<Rightarrow> 'v list" where
  "dd_get d k = (case map_of d k of None \<Rightarrow> [] | Some vs \<Rightarrow> vs)"

text \<open>The elements met by \<^verbatim>\<open>for vs in d.values(): for v in vs\<close>, in order.\<close>

definition dd_values :: "('k \<times> 'v list) list \<Rightarrow> 'v list" where
  "dd_values d = concat (map snd d)"

section \<open>Assignment resolver\<close>

text \<open>
  The same loop opens \<^verbatim>\<open>start_all\<close> and every round of \<^verbatim>\<open>refresh_loop\<close>:
  \<^verbatim>\<open>mon_to_profiles = defaultdict(list)
  for pname in self.state["profiles"].keys():
      ps = self.ps_for(pname)
      if ps["monitor_index"] is not None and self.tokens_for(pname):
          mon_to_profiles[int(ps["monitor_index"])].append(pname)\<close>
\<close>

definition mon_to_profiles :: "app_state \<Rightarrow> (int \<times> string list) list" where
  "mon_to_profiles st =
     foldl (\<lambda>d pname.
              case monitor_index (ps_for st pname) of
                None \<Rightarrow> d
              | Some mon \<Rightarrow> if tokens_for st pname = [] then d else dd_append d mon pname)
       [] (map fst (profiles st))"

text \<open>
  The round interval of \<^verbatim>\<open>refresh_loop\<close>:
  \<^verbatim>\<open>R = 0
  for pslist in mon_to_profiles.values():
      for pname in pslist:
          R = max(R, int(self.ps_for(pname).get("refresh_sec", 30)))
  R = max(R, 10)\<close>
\<close>

definition round_interval :: "app_state \<Rightarrow> int" where
  "round_interval st =
     max (foldl (\<lambda>R pname. max R (refresh_sec (ps_for st pname))) 0
            (dd_values (mon_to_profiles st)))
         10"

text \<open>The groups of the display assignment: non-null display target, non-empty token list.\<close>

definition assigned :: "app_state \<Rightarrow> string \<Rightarrow> bool" where
  "assigned st pname =
     (monitor_index (ps_for st pname) \<noteq> None \<and> tokens_for st pname \<noteq> [])"

definition assigned_to :: "app_state \<Rightarrow> int \<Rightarrow> string \<Rightarrow> bool" where
  "assigned_to st mon pname =
     (monitor_index (ps_for st pname) = Some mon \<and> tokens_for st pname \<noteq> [])"

section \<open>Click-through aggregation\<close>

text \<open>
  In \<^verbatim>\<open>start_all\<close>, for every display of the assignment:
  \<^verbatim>\<open>for mon_idx, profiles in mon_to_profiles.items():
      ...
      all_click_through = all(self.ps_for(p).get("click_through", True) for p in profiles)
      tk.set_click_through(all_click_through)\<close>
\<close>

definition start_all_click_through :: "app_state \<Rightarrow> (int \<times> bool) list" where
  "start_all_click_through st =
     map (\<lambda>(mon_idx, profs). (mon_idx, list_all (\<lambda>p. click_through (ps_for st p)) profs))
       (mon_to_profiles st)"

text \<open>
  In \<^verbatim>\<open>refresh_loop\<close>, for every display that has a ticker:
  \<^verbatim>\<open>profiles = [p for p in self.state["profiles"].keys()
              if self.ps_for(p).get("monitor_index")==mon_idx]
  all_ct = all(self.ps_for(p).get("click_through", True) for p in profiles) if profiles else True
  tk.set_click_through(all_ct)\<close>
\<close>

definition refresh_profiles_of :: "app_state \<Rightarrow> int \<Rightarrow> string list" where
  "refresh_profiles_of st mon_idx =
     filter (\<lambda>p. monitor_index (ps_for st p) = Some mon_idx) (map fst (profiles st))"

definition refresh_click_through :: "app_state \<Rightarrow> int \<Rightarrow> bool" where
  "refresh_click_through st mon_idx =
     (if refresh_profiles_of st mon_idx = [] then True
      else list_all (\<lambda>p. click_through (ps_for st p)) (refresh_profiles_of st mon_idx))"

section \<open>Number formatting\<close>

text \<open>
  A finite Python float is modelled by the rational number it denotes, so comparisons
  are exact, and the format specification \<^verbatim>\<open>.nf\<close> is the correctly rounded decimal
  expansion with \<open>n\<close> fractional digits (ties to even) that CPython prints. Infinities,
  NaN and the sign of a negative zero are outside the model.
\<close>

definition round_half_even :: "rat \<Rightarrow> int" where
  "round_half_even x =
     (if x - of_int \<lfloor>x\<rfloor> < 1 / 2 then \<lfloor>x\<rfloor>
      else if 1 / 2 < x - of_int \<lfloor>x\<rfloor> then \<lfloor>x\<rfloor> + 1
      else if even \<lfloor>x\<rfloor> then \<lfloor>x\<rfloor> else \<lfloor>x\<rfloor> + 1)"

definition digit_char :: "int \<Rightarrow> char" where
  "digit_char d = char_of (48 + d)"

text \<open>The decimal digits of a non-negative integer.\<close>

function dec_digits :: "int \<Rightarrow> string" where
  "dec_digits n =
     (if n < 10 then [digit_char n] else dec_digits (n div 10) @ [digit_char (n mod 10)])"
  by pat_completeness auto
termination
  by (relation "measure nat") auto

declare dec_digits.simps [simp del]

text \<open>The thousands separator of the \<^verbatim>\<open>,\<close> format option, on the reversed digits.\<close>

fun group3_rev :: "string \<Rightarrow> string" where
  "group3_rev (a # b # c # d # r) = a # b # c # CHR '','' # group3_rev (d # r)"
| "group3_rev s = s"

definition group3 :: "string \<Rightarrow> string" where
  "group3 s = rev (group3_rev (rev s))"

text \<open>
  \<open>format_f signed grouping n p\<close> is \<^verbatim>\<open>f"{p:.nf}"\<close>, with the \<^verbatim>\<open>+\<close> option when \<open>signed\<close> and the
  \<^verbatim>\<open>,\<close> option when \<open>grouping\<close>.
\<close>

definition format_f :: "bool \<Rightarrow> bool \<Rightarrow> nat \<Rightarrow> rat \<Rightarrow> string" where
  "format_f signed grouping n p =
     (let q = round_half_even (\<bar>p\<bar> * 10 ^ n);
          ip = dec_digits (q div 10 ^ n);
          fp = dec_digits (q mod 10 ^ n)
      in (if p < 0 then ''-'' else if signed then ''+'' else [])
         @ (if grouping then group3 ip else ip)
         @ (if n = 0 then [] else ''.'' @ replicate (n - length fp) (CHR ''0'') @ fp))"

text \<open>The float that the literal \<^verbatim>\<open>0.1\<close> denotes.\<close>

definition FLOAT_0_1 :: rat where
  "FLOAT_0_1 = 3602879701896397 / 36028797018963968"

text \<open>
  \<^verbatim>\<open>def price_str(p):
      if p is None: return "-"
      if p >= 100:  return f"${p:,.2f}"
      if p >= 1:    return f"${p:,.3f}"
      if p >= 0.1:  return f"${p:.4f}"
      return "$" + f"{p:.8f}".rstrip("0").rstrip(".")\<close>
  (the placeholder of the source is the em dash).
\<close>

definition price_str :: "rat option \<Rightarrow> string" where
  "price_str p =
     (case p of
        None \<Rightarrow> EM_DASH
      | Some v \<Rightarrow>
          if 100 \<le> v then ''$'' @ format_f False True 2 v
          else if 1 \<le> v then ''$'' @ format_f False True 3 v
          else if FLOAT_0_1 \<le> v then ''$'' @ format_f False False 4 v
          else ''$'' @ rstrip (rstrip (format_f False False 8 v) ''0'') ''.'')"

text \<open>
  \<^verbatim>\<open>def pct_str(x):
      return "-" if x is None else f"{x:+.2f}%"
  def format_changes(m5, h24):
      m5s  = "-" if m5  is None else f"{m5:+.0f}%"
      h24s = "-" if h24 is None else f"{h24:+.0f}%"
      return f"{m5s} last 5m / {h24s} last 24h"\<close>
\<close>

definition pct_str :: "rat option \<Rightarrow> string" where
  "pct_str x = (case x of None \<Rightarrow> EM_DASH | Some v \<Rightarrow> format_f True False 2 v @ ''%'')"

definition format_changes :: "rat option \<Rightarrow> rat option \<Rightarrow> string" where
  "format_changes m5 h24 =
     (case m5 of None \<Rightarrow> EM_DASH | Some v \<Rightarrow> format_f True False 0 v @ ''%'')
     @ '' last 5m / ''
     @ (case h24 of None \<Rightarrow> EM_DASH | Some v \<Rightarrow> format_f True False 0 v @ ''%'')
     @ '' last 24h''"

definition BULLET :: string where
  "BULLET = [CHR 0xE2, CHR 0x80, CHR 0xA2]"

text \<open>
  \<^verbatim>\<open>def make_item_html(name, price, m5, h24, separator_text, bold_name, bold_price, bold_changes):
      ns = f"<b>{name}</b>" if bold_name else name
      ps = f"<b>{price_str(price)}</b>" if bold_price else price_str(price)
      cs = f"<b>{format_changes(m5, h24)}</b>" if bold_changes else format_changes(m5, h24)
      base = f"{ns} * {ps} * {cs}"
      sep = f" {separator_text}" if separator_text else ""
      return base + sep\<close>
  (the separator of the three fields is the bullet character).
\<close>

definition bold :: "bool \<Rightarrow> string \<Rightarrow> string" where
  "bold b s = (if b then ''<b>'' @ s @ ''</b>'' else s)"

definition make_item_html ::
  "string \<Rightarrow> rat option \<Rightarrow> rat option \<Rightarrow> rat option \<Rightarrow> string \<Rightarrow> bool \<Rightarrow> bool \<Rightarrow> bool \<Rightarrow> string" where
  "make_item_html name price m5 h24 sep_text b_name b_price b_changes =
     bold b_name name @ '' '' @ BULLET @ '' '' @ bold b_price (price_str price)
     @ '' '' @ BULLET @ '' '' @ bold b_changes (format_changes m5 h24)
     @ (if sep_text = [] then [] else '' '' @ sep_text)"

section \<open>Decimal forms\<close>

text \<open>
  The forms that the price formatter is claimed to produce are stated on the rendered
  text itself. A digit is one of \<open>0\<close> to \<open>9\<close>; \<open>numeral_value\<close> reads a string of digits
  as a decimal numeral; \<open>ungroup\<close> removes the thousands separators; a text is
  \<open>grouped\<close> when, read from the right, it is made of groups of three characters that
  are not separators, each followed by a separator and a further, non-empty group, and
  ends with a group of at most three that has none. \<open>int_part\<close> is the part of a
  rendering before its decimal point, \<open>frac_part\<close> the part after it.
\<close>

definition is_digit :: "char \<Rightarrow> bool" where
  "is_digit c = (48 \<le> (of_char c :: int) \<and> (of_char c :: int) \<le> 57)"

definition numeral_value :: "string \<Rightarrow> int" where
  "numeral_value s = foldl (\<lambda>v c. 10 * v + (of_char c - 48)) 0 s"

definition ungroup :: "string \<Rightarrow> string" where
  "ungroup s = filter (\<lambda>c. c \<noteq> CHR '','') s"

fun grouped_rev :: "string \<Rightarrow> bool" where
  "grouped_rev (a # b # c # d # r) =
     (a \<noteq> CHR '','' \<and> b \<noteq> CHR '','' \<and> c \<noteq> CHR '','' \<and> d = CHR '','' \<and> r \<noteq> []
      \<and> grouped_rev r)"
| "grouped_rev s = (CHR '','' \<notin> set s)"

definition grouped :: "string \<Rightarrow> bool" where
  "grouped s = grouped_rev (rev s)"

definition int_part :: "string \<Rightarrow> string" where
  "int_part s = takeWhile (\<lambda>c. c \<noteq> CHR ''.'') s"

definition frac_part :: "string \<Rightarrow> string" where
  "frac_part s = drop 1 (dropWhile (\<lambda>c. c \<noteq> CHR ''.'') s)"

text \<open>
  A text \<open>s\<close> is the \<open>n\<close>-decimal form of the number \<open>p\<close> when it is a minus sign if \<open>p\<close>
  is negative, an integer part, a decimal point and exactly \<open>n\<close> digits, where the
  integer part is a non-empty string of digits with no leading zero (with thousands
  grouping: the grouped form of such a string), and the digits of the integer part
  followed by the \<open>n\<close> decimals are the numeral of \<open>\<bar>p\<bar> * 10 ^ n\<close> rounded to the nearest
  integer, ties to even.
\<close>

definition decimal_form :: "bool \<Rightarrow> nat \<Rightarrow> rat \<Rightarrow> string \<Rightarrow> bool" where
  "decimal_form grouping n p s =
     (let sgn = (if p < 0 then ''-'' else []);
          ip = drop (length sgn) (int_part s);
          fp = frac_part s
      in s = int_part s @ ''.'' @ fp
         \<and> take (length sgn) (int_part s) = sgn
         \<and> (if grouping then grouped ip else CHR '','' \<notin> set ip)
         \<and> ungroup ip \<noteq> [] \<and> list_all is_digit (ungroup ip)
         \<and> (hd (ungroup ip) \<noteq> CHR ''0'' \<or> ungroup ip = ''0'')
         \<and> length fp = n \<and> list_all is_digit fp
         \<and> numeral_value (ungroup ip @ fp) = round_half_even (\<bar>p\<bar> * 10 ^ n))"

text \<open>
  A text \<open>s\<close> is the trimmed \<open>n\<close>-decimal form of \<open>p\<close> when it has no dangling decimal point
  (it is its integer part alone, or the integer part, the point and a non-empty
  fraction), its fraction does not end with a zero, and putting back the point, if it
  was removed, and the zeros that fill the fraction up to \<open>n\<close> digits gives the
  \<open>n\<close>-decimal form of \<open>p\<close>.
\<close>

definition trimmed_form :: "nat \<Rightarrow> rat \<Rightarrow> string \<Rightarrow> bool" where
  "trimmed_form n p s =
     (s = int_part s @ (if frac_part s = [] then [] else ''.'' @ frac_part s)
      \<and> (frac_part s = [] \<or> last (frac_part s) \<noteq> CHR ''0'')
      \<and> decimal_form False n p
          (s @ (if frac_part s = [] then ''.'' else [])
             @ replicate (n - length (frac_part s)) (CHR ''0'')))"

text \<open>The floats that the literals of the boundary cases denote.\<close>

definition FLOAT_99_999 :: rat where
  "FLOAT_99_999 = 3518402024511111 / 35184372088832"

definition FLOAT_0_999 :: rat where
  "FLOAT_0_999 = 8998192055486251 / 9007199254740992"

definition FLOAT_1234e_11 :: rat where
  "FLOAT_1234e_11 = 3729536153511131 / 302231454903657293676544"

definition FLOAT_1234567_891 :: rat where
  "FLOAT_1234567_891 = 5302428716536693 / 4294967296"

text \<open>The float that the literal \<^verbatim>\<open>0.05\<close> denotes.\<close>

definition FLOAT_0_05 :: rat where
  "FLOAT_0_05 = 3602879701896397 / 72057594037927936"

section \<open>Display composer\<close>

text \<open>
  A price sample is the dictionary \<^verbatim>\<open>{"price", "h24", "m5"}\<close> of optional floats. The
  result cache \<^verbatim>\<open>self.last_results\<close> is a \<^verbatim>\<open>defaultdict(dict)\<close>: group name to token key
  to sample.
\<close>

record sample =
  price :: "rat option"
  h24 :: "rat option"
  m5 :: "rat option"

type_synonym result_cache = "string \<Rightarrow> (string \<rightharpoonup> sample)"

definition absent_sample :: sample where
  "absent_sample = \<lparr>price = None, h24 = None, m5 = None\<rparr>"

record 'pm display_item =
  item_key :: string
  item_text :: string
  item_color :: string
  item_family :: string
  item_px :: int
  item_show_logo :: bool
  item_pixmap :: "'pm option"

text \<open>
  The name of a token, lines 1166 to 1168 of \<^verbatim>\<open>_build_monitor_items\<close>:
  \<^verbatim>\<open>name = self.state["token_names"].get(base_key) or short_addr(t["address"])
  if ps.get("use_custom_names", False) and (t.get("custom_name") or "").strip():
      name = t["custom_name"].strip()\<close>
\<close>

definition display_name :: "app_state \<Rightarrow> psettings \<Rightarrow> token \<Rightarrow> string" where
  "display_name st ps t =
     (let base_key = key_for (network_id t) (address t);
          name = (case token_names st base_key of
                    None \<Rightarrow> short_addr (address t)
                  | Some n \<Rightarrow> if n = [] then short_addr (address t) else n)
      in if use_custom_names ps \<and> strip (custom_name t) \<noteq> []
         then strip (custom_name t) else name)"

text \<open>
  \<^verbatim>\<open>_build_monitor_items(mon_idx, use_cache)\<close>: one item per token of every declared group
  whose display target is \<open>mon_idx\<close>, in declaration order and, within a group, in the
  order of its tokens. \<open>logo\<close> is the lookup \<^verbatim>\<open>self.logo_cache.get(base_key) or
  _load_logo_from_disk(base_key)\<close>; the function also stores a logo it found in
  \<^verbatim>\<open>self.logo_cache\<close>, which leaves the lookup unchanged.
\<close>

definition build_item ::
  "(string \<Rightarrow> 'pm option) \<Rightarrow> app_state \<Rightarrow> result_cache \<Rightarrow> bool \<Rightarrow> string \<Rightarrow> token
     \<Rightarrow> 'pm display_item" where
  "build_item logo st last_results use_cache pname t =
     (let ps = ps_for st pname;
          base_key = key_for (network_id t) (address t);
          vals = (if use_cache
                  then (case last_results pname base_key of
                          None \<Rightarrow> absent_sample | Some v \<Rightarrow> v)
                  else absent_sample)
      in \<lparr>item_key = pname @ ''|'' @ base_key,
          item_text = make_item_html (display_name st ps t) (price vals) (m5 vals) (h24 vals)
                        (separator_text ps) (bold_name ps) (bold_price ps) (bold_changes ps),
          item_color = font_color ps, item_family = font_family ps, item_px = font_px ps,
          item_show_logo = show_logo ps, item_pixmap = logo base_key\<rparr>)"

definition build_monitor_items ::
  "(string \<Rightarrow> 'pm option) \<Rightarrow> app_state \<Rightarrow> result_cache \<Rightarrow> int \<Rightarrow> bool
     \<Rightarrow> 'pm display_item list" where
  "build_monitor_items logo st last_results mon_idx use_cache =
     concat (map (\<lambda>pname. map (build_item logo st last_results use_cache pname)
                               (tokens_for st pname))
               (filter (\<lambda>pname. monitor_index (ps_for st pname) = Some mon_idx)
                  (map fst (profiles st))))"

section \<open>Ticker renderer\<close>

text \<open>
  A \<^verbatim>\<open>TokenItemWidget\<close> holds what its constructor and setters store. A \<^verbatim>\<open>MonitorTicker\<close>
  holds the widgets by key, the order of the keys, the widgets of the layout from left
  to right, the scroll offset and the marquee flag. The width of the container is a
  field; the natural width of a layout, \<^verbatim>\<open>self.hbox.sizeHint().width()\<close>, is computed by
  the toolkit from the widgets of the layout and is a parameter \<open>hint\<close> of the operations
  that read it.
\<close>

record 'pm widget =
  w_key :: string
  w_show_logo :: bool
  w_color :: string
  w_family :: string
  w_px :: int
  w_text :: string
  w_pixmap :: "'pm option"

datatype alignment = AlignLeft | AlignHCenter

record 'pm ticker =
  tk_monitor_index :: int
  tk_items :: "string \<rightharpoonup> 'pm widget"
  tk_order :: "string list"
  tk_hbox :: "'pm widget list"
  tk_offset :: int
  tk_marquee :: bool
  tk_alignment :: alignment
  tk_width :: int
  tk_track_x :: int
  tk_bg_opacity :: rat

text \<open>
  \<^verbatim>\<open>def _layout_track(self):
      tw = max(self.hbox.sizeHint().width(), 1)
      self.track.resize(tw, self.container.height())
      if not self._marquee:
          self.track.move((self.container.width() - tw)//2, 0)
      else:
          x = - (self._offset % tw)
          self.track.move(x, 0)\<close>
\<close>

definition layout_track :: "('pm widget list \<Rightarrow> int) \<Rightarrow> 'pm ticker \<Rightarrow> 'pm ticker" where
  "layout_track hint tk =
     (let tw = max (hint (tk_hbox tk)) 1
      in if tk_marquee tk then tk\<lparr>tk_track_x := - (tk_offset tk mod tw)\<rparr>
         else tk\<lparr>tk_track_x := (tk_width tk - tw) div 2\<rparr>)"

text \<open>
  \<^verbatim>\<open>def _update_marquee_state(self):
      too_many = len(self.order) > 10
      wider = self.hbox.sizeHint().width() > (self.container.width() - 20)
      req = bool(too_many or wider)
      if not req and self._marquee:
          self._offset = 0
      self._marquee = req
      self.hbox.setAlignment(Qt.AlignVCenter | (Qt.AlignLeft if self._marquee else Qt.AlignHCenter))\<close>
\<close>

definition update_marquee_state :: "('pm widget list \<Rightarrow> int) \<Rightarrow> 'pm ticker \<Rightarrow> 'pm ticker" where
  "update_marquee_state hint tk =
     (let too_many = 10 < length (tk_order tk);
          wider = tk_width tk - 20 < hint (tk_hbox tk);
          req = (too_many \<or> wider)
      in tk\<lparr>tk_offset := (if \<not> req \<and> tk_marquee tk then 0 else tk_offset tk),
             tk_marquee := req,
             tk_alignment := (if req then AlignLeft else AlignHCenter)\<rparr>)"

text \<open>
  \<^verbatim>\<open>def _relayout(self):
      self.container.setGeometry(0, 0, self.width(), self.height())
      self._layout_track()
      self._update_marquee_state()\<close>
  runs on a resize of the window (\<^verbatim>\<open>resizeEvent\<close>) and on a change of the screen
  geometry; \<open>width\<close> is the width of the window at that time.
\<close>

definition relayout :: "('pm widget list \<Rightarrow> int) \<Rightarrow> int \<Rightarrow> 'pm ticker \<Rightarrow> 'pm ticker" where
  "relayout hint width tk =
     update_marquee_state hint (layout_track hint (tk\<lparr>tk_width := width\<rparr>))"

text \<open>
  \<^verbatim>\<open>def _scroll_step(self):
      if not self._marquee: return
      self._offset += 1
      self._layout_track()\<close>
\<close>

definition scroll_step :: "('pm widget list \<Rightarrow> int) \<Rightarrow> 'pm ticker \<Rightarrow> 'pm ticker" where
  "scroll_step hint tk =
     (if tk_marquee tk then layout_track hint (tk\<lparr>tk_offset := tk_offset tk + 1\<rparr>) else tk)"

text \<open>
  The widget that \<^verbatim>\<open>set_initial_items\<close> and \<^verbatim>\<open>update_items\<close> create for an item:
  \<^verbatim>\<open>w = TokenItemWidget(key, it["show_logo"], it["color"], it["family"], it["px"])
  w.set_text(it["text"])
  if it.get("pixmap"): w.set_pixmap(it["pixmap"])\<close>
  and the update of a widget in the last loop of \<^verbatim>\<open>update_items\<close>:
  \<^verbatim>\<open>w.set_logo_visible(it["show_logo"])
  w.set_style(it["color"], it["family"], it["px"])
  w.set_text(it["text"])
  if it.get("pixmap"): w.set_pixmap(it["pixmap"])\<close>
\<close>

definition new_widget :: "'pm display_item \<Rightarrow> 'pm widget" where
  "new_widget it =
     \<lparr>w_key = item_key it, w_show_logo = item_show_logo it, w_color = item_color it,
      w_family = item_family it, w_px = item_px it, w_text = item_text it,
      w_pixmap = item_pixmap it\<rparr>"

definition restyle_widget :: "'pm display_item \<Rightarrow> 'pm widget \<Rightarrow> 'pm widget" where
  "restyle_widget it w =
     w\<lparr>w_show_logo := item_show_logo it, w_color := item_color it,
       w_family := item_family it, w_px := item_px it, w_text := item_text it,
       w_pixmap := (case item_pixmap it of None \<Rightarrow> w_pixmap w | Some pm \<Rightarrow> Some pm)\<rparr>"

text \<open>
  \<^verbatim>\<open>def set_initial_items(self, items):
      (the layout is emptied and its widgets deleted)
      self.items.clear(); self.order = []
      for it in items:
          key = it["key"]
          w = TokenItemWidget(...) ...
          self.items[key] = w; self.order.append(key)
          self.hbox.addWidget(w)
      ...
      self._layout_track(); self._update_marquee_state()\<close>
\<close>

definition set_initial_items ::
  "('pm widget list \<Rightarrow> int) \<Rightarrow> 'pm ticker \<Rightarrow> 'pm display_item list \<Rightarrow> 'pm ticker" where
  "set_initial_items hint tk its =
     update_marquee_state hint
       (layout_track hint
          (tk\<lparr>tk_items := foldl (\<lambda>m it. m(item_key it \<mapsto> new_widget it)) Map.empty its,
              tk_order := map item_key its,
              tk_hbox := map new_widget its\<rparr>))"

text \<open>
  \<^verbatim>\<open>def update_items(self, items):
      incoming_keys = [it["key"] for it in items]
      for it in items:
          key = it["key"]
          if key not in self.items:
              w = TokenItemWidget(...) ...
              self.items[key] = w; self.order.append(key); self.hbox.addWidget(w)
      for key in list(self.order):
          if key not in incoming_keys:
              w = self.items.pop(key, None)
              self.order.remove(key)
              if w: w.setParent(None); w.deleteLater()
      as_dict = {it["key"]: it for it in items}
      self.order = [it["key"] for it in items]
      for i in reversed(range(self.hbox.count())):
          self.hbox.takeAt(i)
      for key in self.order:
          w = self.items.get(key)
          if not w: continue
          it = as_dict[key]
          (the widget is updated from the item)
          self.hbox.addWidget(w)
      ...
      self._layout_track(); self._update_marquee_state()\<close>
  The three loops are \<open>add_new_items\<close>, \<open>drop_missing_items\<close> and \<open>refill_hbox\<close>.
\<close>

definition add_new_items ::
  "'pm display_item list \<Rightarrow> (string \<rightharpoonup> 'pm widget) \<times> string list
     \<Rightarrow> (string \<rightharpoonup> 'pm widget) \<times> string list" where
  "add_new_items its acc =
     foldl (\<lambda>(m, order) it.
              case m (item_key it) of
                None \<Rightarrow> (m(item_key it \<mapsto> new_widget it), order @ [item_key it])
              | Some w \<Rightarrow> (m, order))
       acc its"

definition drop_missing_items ::
  "string list \<Rightarrow> (string \<rightharpoonup> 'pm widget) \<times> string list
     \<Rightarrow> (string \<rightharpoonup> 'pm widget) \<times> string list" where
  "drop_missing_items incoming_keys acc =
     foldl (\<lambda>(m, order) key.
              if key \<in> set incoming_keys then (m, order)
              else (m(key := None), remove1 key order))
       acc (snd acc)"

definition refill_hbox ::
  "'pm display_item list \<Rightarrow> (string \<rightharpoonup> 'pm widget) \<Rightarrow> string list
     \<Rightarrow> (string \<rightharpoonup> 'pm widget) \<times> 'pm widget list" where
  "refill_hbox its m order =
     foldl (\<lambda>(m, hbox) key.
              case m key of
                None \<Rightarrow> (m, hbox)
              | Some w \<Rightarrow>
                  (case map_of (rev (map (\<lambda>it. (item_key it, it)) its)) key of
                     None \<Rightarrow> (m, hbox)
                   | Some it \<Rightarrow> (m(key \<mapsto> restyle_widget it w), hbox @ [restyle_widget it w])))
       (m, []) order"

definition update_items ::
  "('pm widget list \<Rightarrow> int) \<Rightarrow> 'pm ticker \<Rightarrow> 'pm display_item list \<Rightarrow> 'pm ticker" where
  "update_items hint tk its =
     (let incoming_keys = map item_key its;
          kept = drop_missing_items incoming_keys
                   (add_new_items its (tk_items tk, tk_order tk));
          filled = refill_hbox its (fst kept) incoming_keys
      in update_marquee_state hint
           (layout_track hint
              (tk\<lparr>tk_items := fst filled, tk_order := incoming_keys,
                  tk_hbox := snd filled\<rparr>)))"

text \<open>A ticker as its constructor leaves it, for a display of the given width.\<close>

definition new_ticker :: "int \<Rightarrow> int \<Rightarrow> 'pm ticker" where
  "new_ticker mon_idx width =
     \<lparr>tk_monitor_index = mon_idx, tk_items = Map.empty, tk_order = [], tk_hbox = [],
      tk_offset = 0, tk_marquee = False, tk_alignment = AlignHCenter, tk_width = width,
      tk_track_x = 0, tk_bg_opacity = 7 / 10\<rparr>"

section \<open>Batch fetcher\<close>

text \<open>
  The JSON document of a batch response, as far as \<^verbatim>\<open>refresh_loop\<close> reads it. A raw
  JSON scalar has the type \<open>'r\<close>; \<^verbatim>\<open>float(x)\<close> is the parameter \<open>pyfloat\<close>, which gives
  \<open>None\<close> where \<^verbatim>\<open>float\<close> raises. A record of \<^verbatim>\<open>payload["included"]\<close> is read through
  \<^verbatim>\<open>inc.get("id")\<close>, \<^verbatim>\<open>inc.get("type")\<close> and the two entries of
  \<^verbatim>\<open>attributes.price_change_percentage\<close>; a record of \<^verbatim>\<open>payload["data"]\<close> through its
  attributes \<^verbatim>\<open>address\<close> (default \<^verbatim>\<open>""\<close>), \<^verbatim>\<open>price_usd\<close>, \<^verbatim>\<open>name\<close>, \<^verbatim>\<open>image_url\<close> and the ids
  of \<^verbatim>\<open>relationships.top_pools.data\<close>.
\<close>

record 'r pool_inc =
  inc_id :: "string option"
  inc_type :: "string option"
  chg_h24 :: "'r option"
  chg_m5 :: "'r option"

record 'r tok_data =
  attr_address :: string
  attr_price_usd :: "'r option"
  attr_name :: "string option"
  attr_image_url :: "string option"
  rel_top_pools :: "string option list"

record 'r payload =
  included :: "'r pool_inc list"
  data :: "'r tok_data list"

text \<open>
  The outcome of \<^verbatim>\<open>async with self.session.get(url, timeout=15) as resp\<close>: the request
  raises (transport error or timeout), or a response arrives with a status and a body
  that \<^verbatim>\<open>resp.json()\<close> decodes or fails to decode.
\<close>

datatype 'r response = RequestFailed | Response nat "'r payload option"

text \<open>
  \<^verbatim>\<open>pools = {inc.get("id"): inc for inc in (payload.get("included") or [])
           if inc.get("type")=="pool"}\<close>
\<close>

definition pools_of :: "'r pool_inc list \<Rightarrow> (string option \<rightharpoonup> 'r pool_inc)" where
  "pools_of incs =
     foldl (\<lambda>m inc. if inc_type inc = Some ''pool'' then m(inc_id inc \<mapsto> inc) else m)
       Map.empty incs"

definition opt_float :: "('r \<Rightarrow> rat option) \<Rightarrow> 'r option \<Rightarrow> rat option" where
  "opt_float pyfloat v = (case v of None \<Rightarrow> None | Some x \<Rightarrow> pyfloat x)"

text \<open>
  The sample of one record of the response:
  \<^verbatim>\<open>price = attrs.get("price_usd")
  try: price_f = float(price) if price is not None else None
  except Exception: price_f = None
  h24 = None; m5 = None
  rel = tok.get("relationships",{}).get("top_pools",{}).get("data") or []
  if rel:
      pool_id = rel[0].get("id")
      pool = pools.get(pool_id, {})
      pattrs = (pool.get("attributes") or {})
      chg = (pattrs.get("price_change_percentage") or {})
      (h24 and m5 are read from chg like the price)
  all_results[base_key] = {"price": price_f, "h24": h24, "m5": m5}\<close>
\<close>

definition sample_of ::
  "('r \<Rightarrow> rat option) \<Rightarrow> (string option \<rightharpoonup> 'r pool_inc) \<Rightarrow> 'r tok_data \<Rightarrow> sample" where
  "sample_of pyfloat pools tok =
     (case rel_top_pools tok of
        [] \<Rightarrow> \<lparr>price = opt_float pyfloat (attr_price_usd tok), h24 = None, m5 = None\<rparr>
      | pool_id # rest \<Rightarrow>
          (case pools pool_id of
             None \<Rightarrow> \<lparr>price = opt_float pyfloat (attr_price_usd tok), h24 = None, m5 = None\<rparr>
           | Some pool \<Rightarrow>
               \<lparr>price = opt_float pyfloat (attr_price_usd tok),
                h24 = opt_float pyfloat (chg_h24 pool),
                m5 = opt_float pyfloat (chg_m5 pool)\<rparr>))"

text \<open>
  What the fetch of one group accumulates: \<^verbatim>\<open>all_results\<close>, and the two caches
  \<^verbatim>\<open>self.state["token_names"]\<close> and \<^verbatim>\<open>self.state["token_logos"]\<close>.
\<close>

record fetch_acc =
  acc_results :: "string \<rightharpoonup> sample"
  acc_names :: "string \<rightharpoonup> string"
  acc_logos :: "string \<rightharpoonup> string"

text \<open>
  The body of \<^verbatim>\<open>for tok in payload.get("data") or []\<close>:
  \<^verbatim>\<open>address = normalize_address(net, attrs.get("address",""))
  base_key = key_for(net, address)
  ...
  all_results[base_key] = {"price": price_f, "h24": h24, "m5": m5}
  tname = attrs.get("name"); timg  = attrs.get("image_url")
  if tname: self.state["token_names"][base_key] = tname
  if ps.get("show_logo", False) and timg:
      self.state.setdefault("token_logos", {})[base_key] = timg\<close>
\<close>

definition tok_key :: "string \<Rightarrow> 'r tok_data \<Rightarrow> string" where
  "tok_key net tok = key_for net (normalize_address net (attr_address tok))"

definition store_token ::
  "('r \<Rightarrow> rat option) \<Rightarrow> psettings \<Rightarrow> string \<Rightarrow> (string option \<rightharpoonup> 'r pool_inc)
     \<Rightarrow> fetch_acc \<Rightarrow> 'r tok_data \<Rightarrow> fetch_acc" where
  "store_token pyfloat ps net pools acc tok =
     acc\<lparr>acc_results := (acc_results acc)(tok_key net tok \<mapsto> sample_of pyfloat pools tok),
         acc_names :=
           (case attr_name tok of
              None \<Rightarrow> acc_names acc
            | Some tname \<Rightarrow>
                if tname = [] then acc_names acc
                else (acc_names acc)(tok_key net tok \<mapsto> tname)),
         acc_logos :=
           (if show_logo ps
            then (case attr_image_url tok of
                    None \<Rightarrow> acc_logos acc
                  | Some timg \<Rightarrow>
                      if timg = [] then acc_logos acc
                      else (acc_logos acc)(tok_key net tok \<mapsto> timg))
            else acc_logos acc)\<rparr>"

text \<open>
  The body of \<^verbatim>\<open>for net, addrs in by_net.items()\<close>. The request is determined by the
  network and the comma-joined canonical addresses; \<open>resp\<close> gives its outcome.
  \<^verbatim>\<open>try:
      async with self.session.get(url, timeout=15) as resp:
          if resp.status != 200:
              ...
              continue
          payload = await resp.json()
  except Exception as e:
      log.warning("Batch request failed %s: %s", net, e)
      continue\<close>
\<close>

definition fetch_network ::
  "('r \<Rightarrow> rat option) \<Rightarrow> (string \<Rightarrow> string list \<Rightarrow> 'r response) \<Rightarrow> psettings
     \<Rightarrow> fetch_acc \<Rightarrow> string \<times> string list \<Rightarrow> fetch_acc" where
  "fetch_network pyfloat resp ps acc batch =
     (case resp (fst batch) (map (normalize_address (fst batch)) (snd batch)) of
        RequestFailed \<Rightarrow> acc
      | Response status body \<Rightarrow>
          if status = 200
          then (case body of
                  None \<Rightarrow> acc
                | Some payload \<Rightarrow>
                    foldl (store_token pyfloat ps (fst batch) (pools_of (included payload)))
                      acc (data payload))
          else acc)"

text \<open>
  \<^verbatim>\<open>by_net = defaultdict(list)
  for t in tokens:
      by_net[t["network_id"]].append(normalize_address(t["network_id"], t["address"]))\<close>
\<close>

definition by_net :: "token list \<Rightarrow> (string \<times> string list) list" where
  "by_net tokens =
     foldl (\<lambda>d t. dd_append d (network_id t)
                     (normalize_address (network_id t) (address t)))
       [] tokens"

definition fetch_group ::
  "('r \<Rightarrow> rat option) \<Rightarrow> (string \<Rightarrow> string list \<Rightarrow> 'r response) \<Rightarrow> psettings
     \<Rightarrow> token list \<Rightarrow> (string \<rightharpoonup> string) \<Rightarrow> (string \<rightharpoonup> string) \<Rightarrow> fetch_acc" where
  "fetch_group pyfloat resp ps tokens names logos =
     foldl (fetch_network pyfloat resp ps)
       \<lparr>acc_results = Map.empty, acc_names = names, acc_logos = logos\<rparr>
       (by_net tokens)"

text \<open>
  The fetch part of one round, for one group and for all groups. The controller is
  the pair of \<^verbatim>\<open>self.state\<close> and \<^verbatim>\<open>self.last_results\<close>; \<open>resp pname\<close> gives the outcomes of
  the requests made for the group \<open>pname\<close>.
  \<^verbatim>\<open>for pname in self.state["profiles"].keys():
      ps = self.ps_for(pname)
      if ps.get("monitor_index") is None or not self.tokens_for(pname):
          continue
      tokens = list(self.tokens_for(pname))
      ...
      self.last_results[pname].update(all_results)\<close>
\<close>

definition refresh_group ::
  "('r \<Rightarrow> rat option) \<Rightarrow> (string \<Rightarrow> string \<Rightarrow> string list \<Rightarrow> 'r response)
     \<Rightarrow> app_state \<times> result_cache \<Rightarrow> string \<Rightarrow> app_state \<times> result_cache" where
  "refresh_group pyfloat resp ctl pname =
     (if monitor_index (ps_for (fst ctl) pname) = None \<or> tokens_for (fst ctl) pname = []
      then ctl
      else (let acc = fetch_group pyfloat (resp pname) (ps_for (fst ctl) pname)
                        (tokens_for (fst ctl) pname)
                        (token_names (fst ctl)) (token_logos (fst ctl))
            in ((fst ctl)\<lparr>token_names := acc_names acc, token_logos := acc_logos acc\<rparr>,
                (snd ctl)(pname := snd ctl pname ++ acc_results acc))))"

definition fetch_round ::
  "('r \<Rightarrow> rat option) \<Rightarrow> (string \<Rightarrow> string \<Rightarrow> string list \<Rightarrow> 'r response)
     \<Rightarrow> app_state \<Rightarrow> result_cache \<Rightarrow> app_state \<times> result_cache" where
  "fetch_round pyfloat resp st cache =
     foldl (refresh_group pyfloat resp) (st, cache) (map fst (profiles st))"

text \<open>
  A batch has failed when the request raised, the status is not 200, or the body could
  not be decoded; otherwise it has a payload.
\<close>

definition batch_payload :: "'r response \<Rightarrow> 'r payload option" where
  "batch_payload r =
     (case r of
        RequestFailed \<Rightarrow> None
      | Response status body \<Rightarrow> if status = 200 then body else None)"


text \<open>The response of the batch that the fetch of \<open>tokens\<close> sends for the network \<open>net\<close>.\<close>

definition batch_of :: "(string \<Rightarrow> string list \<Rightarrow> 'r response) \<Rightarrow> token list \<Rightarrow> string \<Rightarrow> 'r response" where
  "batch_of resp tokens net =
     resp net (map (normalize_address net) (dd_get (by_net tokens) net))"

text \<open>
  The keys and samples that the successful batches of one group return, in the order in
  which the fetch meets them.
\<close>

definition batch_entries ::
  "('r \<Rightarrow> rat option) \<Rightarrow> (string \<Rightarrow> string list \<Rightarrow> 'r response) \<Rightarrow> string \<times> string list
     \<Rightarrow> (string \<times> sample) list" where
  "batch_entries pyfloat resp batch =
     (case batch_payload (resp (fst batch) (map (normalize_address (fst batch)) (snd batch))) of
        None \<Rightarrow> []
      | Some payload \<Rightarrow>
          map (\<lambda>tok. (tok_key (fst batch) tok,
                       sample_of pyfloat (pools_of (included payload)) tok))
            (data payload))"

definition response_entries ::
  "('r \<Rightarrow> rat option) \<Rightarrow> (string \<Rightarrow> string list \<Rightarrow> 'r response) \<Rightarrow> token list
     \<Rightarrow> (string \<times> sample) list" where
  "response_entries pyfloat resp tokens =
     concat (map (batch_entries pyfloat resp) (by_net tokens))"


text \<open>
  The keys that the successful batches of one group return: a key is returned when some
  record of the payload of a batch that did not fail has it.
\<close>

definition returned_keys ::
  "(string \<Rightarrow> string list \<Rightarrow> 'r response) \<Rightarrow> token list \<Rightarrow> string list" where
  "returned_keys resp tokens =
     concat (map (\<lambda>batch.
                    case batch_payload
                           (resp (fst batch) (map (normalize_address (fst batch)) (snd batch))) of
                      None \<Rightarrow> []
                    | Some payload \<Rightarrow> map (tok_key (fst batch)) (data payload))
               (by_net tokens))"

section \<open>Refresh scheduler loop\<close>

text \<open>
  \<^verbatim>\<open>async def refresh_loop(self):
      self._ensure_session()
      while True:
          try:
              (the round: resolve the assignment, fetch, update the tickers, sleep)
          except Exception as e:
              log.exception("refresh_loop error: %s", e)
              await asyncio.sleep(2)
              self._ensure_session()\<close>
  An exception is what a Python \<^verbatim>\<open>raise\<close> propagates. \<open>Exc name\<close> stands for an instance
  of a class derived from \<^verbatim>\<open>Exception\<close>; the other constructors are the built-in
  exceptions derived from \<^verbatim>\<open>BaseException\<close> only. \<^verbatim>\<open>asyncio.CancelledError\<close> is one of
  them since Python 3.8, which the source requires (it uses \<^verbatim>\<open>:=\<close>); it is what
  \<^verbatim>\<open>refresh_task.cancel()\<close> in \<^verbatim>\<open>start_all\<close>, \<^verbatim>\<open>pause_all\<close> and \<^verbatim>\<open>stop_all\<close> raises inside
  the loop. \<open>is_Exception e\<close> is \<^verbatim>\<open>isinstance(e, Exception)\<close>, the test of the
  \<^verbatim>\<open>except Exception\<close> clause.
\<close>

datatype py_exc = Exc string | CancelledError | KeyboardInterrupt | SystemExit | GeneratorExit

fun is_Exception :: "py_exc \<Rightarrow> bool" where
  "is_Exception (Exc name) = True"
| "is_Exception CancelledError = False"
| "is_Exception KeyboardInterrupt = False"
| "is_Exception SystemExit = False"
| "is_Exception GeneratorExit = False"

text \<open>
  The outcome of the \<^verbatim>\<open>try\<close> body of one iteration: it runs to its end (or to its
  \<^verbatim>\<open>continue\<close>), or an exception leaves it. What the body does to the caches and to the
  tickers is modelled by \<open>fetch_round\<close> and the ticker operations; the loop depends only
  on this outcome, which is a parameter \<open>body\<close> of the loop, by iteration. The events
  of the loop are recorded in a trace.
\<close>

datatype round_outcome = Completed | Raised py_exc

datatype loop_event = Round nat | LogException py_exc | Sleep nat | EnsureSession

text \<open>
  \<^verbatim>\<open>def _ensure_session(self):
      if self.session is None or getattr(self.session, "closed", False):
          self.session = aiohttp.ClientSession(headers={...})\<close>
  A session is known by the number of its creation.
\<close>

record client_session =
  session_id :: nat
  session_closed :: bool

record loop_state =
  ls_session :: "client_session option"
  ls_sessions_made :: nat
  ls_trace :: "loop_event list"

definition new_session :: "loop_state \<Rightarrow> loop_state" where
  "new_session st =
     st\<lparr>ls_session := Some \<lparr>session_id = ls_sessions_made st, session_closed = False\<rparr>,
        ls_sessions_made := Suc (ls_sessions_made st)\<rparr>"

definition ensure_session :: "loop_state \<Rightarrow> loop_state" where
  "ensure_session st =
     (let st' = st\<lparr>ls_trace := ls_trace st @ [EnsureSession]\<rparr>
      in case ls_session st' of
           None \<Rightarrow> new_session st'
         | Some s \<Rightarrow> if session_closed s then new_session st' else st')"

text \<open>
  The iterations of \<^verbatim>\<open>while True\<close>, from iteration \<open>i\<close>, at most \<open>fuel\<close> of them. The
  result is the state and the exception that ended the loop, or \<open>None\<close> when the loop
  is still running after \<open>fuel\<close> iterations. \<open>backoff i\<close> is the exception that
  interrupts \<^verbatim>\<open>await asyncio.sleep(2)\<close> in the handler of iteration \<open>i\<close>, if any: raised
  in the \<^verbatim>\<open>except\<close> clause, it leaves the loop.
\<close>

fun refresh_iterations ::
  "nat \<Rightarrow> (nat \<Rightarrow> round_outcome) \<Rightarrow> (nat \<Rightarrow> py_exc option) \<Rightarrow> nat \<Rightarrow> loop_state
     \<Rightarrow> loop_state \<times> py_exc option" where
  "refresh_iterations 0 body backoff i st = (st, None)"
| "refresh_iterations (Suc fuel) body backoff i st =
     (let st1 = st\<lparr>ls_trace := ls_trace st @ [Round i]\<rparr>
      in case body i of
           Completed \<Rightarrow> refresh_iterations fuel body backoff (Suc i) st1
         | Raised e \<Rightarrow>
             if is_Exception e
             then (let st2 = st1\<lparr>ls_trace := ls_trace st1 @ [LogException e]\<rparr>
                   in case backoff i of
                        Some e' \<Rightarrow> (st2, Some e')
                      | None \<Rightarrow>
                          refresh_iterations fuel body backoff (Suc i)
                            (ensure_session (st2\<lparr>ls_trace := ls_trace st2 @ [Sleep 2]\<rparr>)))
             else (st1, Some e))"

definition refresh_loop ::
  "nat \<Rightarrow> (nat \<Rightarrow> round_outcome) \<Rightarrow> (nat \<Rightarrow> py_exc option) \<Rightarrow> loop_state
     \<Rightarrow> loop_state \<times> py_exc option" where
  "refresh_loop fuel body backoff st = refresh_iterations fuel body backoff 0 (ensure_session st)"

text \<open>
  A round is recovered when its body ends normally, or raises an instance of
  \<^verbatim>\<open>Exception\<close> and the backoff that follows is not interrupted. \<open>round_events\<close> are the
  events of a recovered round: the body and, after an exception, the log entry, the
  sleep of 2 seconds and the call of \<^verbatim>\<open>_ensure_session\<close>.
\<close>

definition recovered_round :: "(nat \<Rightarrow> round_outcome) \<Rightarrow> (nat \<Rightarrow> py_exc option) \<Rightarrow> nat \<Rightarrow> bool" where
  "recovered_round body backoff j =
     (case body j of Completed \<Rightarrow> True | Raised e \<Rightarrow> is_Exception e \<and> backoff j = None)"

definition round_events :: "(nat \<Rightarrow> round_outcome) \<Rightarrow> nat \<Rightarrow> loop_event list" where
  "round_events body j =
     (case body j of
        Completed \<Rightarrow> [Round j]
      | Raised e \<Rightarrow> [Round j, LogException e, Sleep 2, EnsureSession])"

definition session_open :: "loop_state \<Rightarrow> bool" where
  "session_open st = (case ls_session st of None \<Rightarrow> False | Some s \<Rightarrow> \<not> session_closed s)"

section \<open>Example configurations\<close>

definition ex_gsettings :: gsettings where
  "ex_gsettings =
     \<lparr>g_refresh_sec = 30, g_opacity = 1 / 2, g_font_family = ''Open Sans'', g_font_px = 15,
      g_font_color = ''#FFFFFF'', g_hotkey = ''F8''\<rparr>"

definition ex_token :: "string \<Rightarrow> string \<Rightarrow> string \<Rightarrow> token" where
  "ex_token net addr cname = \<lparr>network_id = net, address = addr, custom_name = cname\<rparr>"

definition ex_ps :: "int option \<Rightarrow> int \<Rightarrow> bool \<Rightarrow> psettings" where
  "ex_ps mon r ct =
     (default_profile_settings ex_gsettings)
       \<lparr>monitor_index := mon, click_through := ct, refresh_sec := r\<rparr>"

definition ex_state :: "(string \<times> token list) list \<Rightarrow> (string \<times> psettings) list \<Rightarrow> app_state" where
  "ex_state profs pss =
     \<lparr>profiles = profs, active_profile = ''High Risk Assets'', token_names = Map.empty,
      token_logos = Map.empty, profile_settings = map_of pss, settings = ex_gsettings\<rparr>"

text \<open>Two groups with intervals 30 and 15 on display 0, and an unassigned group.\<close>

definition two_groups_state :: app_state where
  "two_groups_state =
     ex_state
       [(''Low Risk'', [ex_token ''eth'' ''0xAAAA'' '''']),
        (''High Risk'', [ex_token ''eth'' ''0xBBBB'' '''']),
        (''Parked'', [ex_token ''eth'' ''0xCCCC'' ''''])]
       [(''Low Risk'', ex_ps (Some 0) 30 True),
        (''High Risk'', ex_ps (Some 0) 15 True),
        (''Parked'', ex_ps None 600 True)]"

text \<open>A lone group with interval 5.\<close>

definition lone_group_state :: app_state where
  "lone_group_state =
     ex_state [(''Solo'', [ex_token ''solana'' ''So1ABC'' ''''])]
       [(''Solo'', ex_ps (Some 0) 5 True)]"

text \<open>
  Five groups: two on display 1, one on display 0, one with a null display target, one
  with a display target and no token.
\<close>

definition five_groups_state :: app_state where
  "five_groups_state =
     ex_state
       [(''A'', [ex_token ''eth'' ''0xAAAA'' '''']),
        (''B'', [ex_token ''eth'' ''0xBBBB'' '''']),
        (''C'', []),
        (''D'', [ex_token ''bsc'' ''0xDDDD'' '''']),
        (''E'', [ex_token ''eth'' ''0xEEEE'' ''''])]
       [(''A'', ex_ps (Some 1) 30 True),
        (''B'', ex_ps None 30 True),
        (''C'', ex_ps (Some 1) 30 True),
        (''D'', ex_ps (Some 0) 30 True),
        (''E'', ex_ps (Some 1) 30 True)]"

text \<open>
  Display 0 with one assigned group that allows click-through, and one group that has
  the same display target, no token, and click-through switched off.
\<close>

definition empty_group_state :: app_state where
  "empty_group_state =
     ex_state
       [(''A'', [ex_token ''eth'' ''0xAAAA'' '''']),
        (''B'', [])]
       [(''A'', ex_ps (Some 0) 30 True),
        (''B'', ex_ps (Some 0) 30 False)]"

text \<open>
  A group that uses custom names, with a token whose custom name is one space and whose
  feed-provided name is cached.
\<close>

definition blank_name_token :: token where
  "blank_name_token = ex_token ''eth'' ''0xc02aaa39b223fe8d0a0e5c4f27ead9083c756cc2'' '' ''"

definition blank_name_state :: app_state where
  "blank_name_state =
     (ex_state [(''G'', [blank_name_token])]
        [(''G'', (ex_ps (Some 0) 30 True)\<lparr>use_custom_names := True\<rparr>)])
       \<lparr>token_names :=
          [''eth:0xc02aaa39b223fe8d0a0e5c4f27ead9083c756cc2'' \<mapsto> ''Wrapped Ether'']\<rparr>"

text \<open>A token with a padded custom name and no cached name, and one with neither.\<close>

definition padded_name_token :: token where
  "padded_name_token = ex_token ''eth'' ''0xc02aaa39b223fe8d0a0e5c4f27ead9083c756cc2'' ''  WETH ''"

text \<open>
  Tokens whose custom name is a no-break space (U+00A0) alone, a name between two
  ideographic spaces (U+3000), and a name with an inner space and none around it.
\<close>

definition nbsp_name_token :: token where
  "nbsp_name_token =
     ex_token ''eth'' ''0xc02aaa39b223fe8d0a0e5c4f27ead9083c756cc2'' [CHR 0xC2, CHR 0xA0]"

definition wide_padded_name_token :: token where
  "wide_padded_name_token =
     ex_token ''eth'' ''0xc02aaa39b223fe8d0a0e5c4f27ead9083c756cc2''
       ([CHR 0xE3, CHR 0x80, CHR 0x80] @ ''WETH'' @ [CHR 0xE3, CHR 0x80, CHR 0x80])"

definition plain_name_token :: token where
  "plain_name_token =
     ex_token ''eth'' ''0xc02aaa39b223fe8d0a0e5c4f27ead9083c756cc2'' ''Wrapped ETH''"

definition unnamed_token :: token where
  "unnamed_token = ex_token ''eth'' ''0xdac17f958d2ee523a2206206994597c13d831ec7'' ''''"

definition short_token :: token where
  "short_token = ex_token ''ton'' ''EQabc12345'' ''''"

text \<open>
  Items with distinct keys, a layout whose natural width is 100 per widget plus the
  margins, and a ticker on a display 1920 wide.
\<close>

definition ex_item :: "nat \<Rightarrow> nat display_item" where
  "ex_item i =
     \<lparr>item_key = ''G|eth:0x'' @ replicate i (CHR ''a''), item_text = ''T'',
      item_color = ''#FFFFFF'', item_family = ''Open Sans'', item_px = 15,
      item_show_logo = True, item_pixmap = None\<rparr>"

definition ex_items :: "nat \<Rightarrow> nat display_item list" where
  "ex_items n = map ex_item [0..<n]"

definition ex_hint :: "nat widget list \<Rightarrow> int" where
  "ex_hint ws = 20 + 100 * int (length ws)"

definition ex_ticker :: "nat ticker" where
  "ex_ticker = new_ticker 0 1920"

definition ex_scrolling_ticker :: "nat ticker" where
  "ex_scrolling_ticker =
     scroll_step ex_hint (scroll_step ex_hint (set_initial_items ex_hint ex_ticker (ex_items 11)))"

text \<open>
  A group with two tokens on \<open>eth\<close> and one on \<open>solana\<close>, a cache that holds a sample for
  each, and a round in which the \<open>eth\<close> batch returns a record for the first token only
  (in upper case) and the \<open>solana\<close> batch fails.
\<close>

definition ex_pyfloat :: "rat \<Rightarrow> rat option" where
  "ex_pyfloat x = Some x"

definition ex_sample :: "rat \<Rightarrow> sample" where
  "ex_sample v = \<lparr>price = Some v, h24 = None, m5 = None\<rparr>"

definition fetch_state :: app_state where
  "fetch_state =
     ex_state
       [(''G'', [ex_token ''eth'' ''0xAAAA'' '''', ex_token ''eth'' ''0xbbbb'' '''',
                 ex_token ''solana'' ''So1ABC'' ''''])]
       [(''G'', ex_ps (Some 0) 30 True)]"

definition fetch_cache :: result_cache where
  "fetch_cache =
     (\<lambda>p. Map.empty)
       (''G'' := [''eth:0xaaaa'' \<mapsto> ex_sample 1, ''eth:0xbbbb'' \<mapsto> ex_sample 2,
                  ''solana:So1ABC'' \<mapsto> ex_sample 3])"

definition eth_record :: "rat tok_data" where
  "eth_record =
     \<lparr>attr_address = ''0xAAAA'', attr_price_usd = Some 10, attr_name = Some ''Aaa'',
      attr_image_url = None, rel_top_pools = [Some ''p1'']\<rparr>"

definition eth_payload :: "rat payload" where
  "eth_payload =
     \<lparr>included = [\<lparr>inc_id = Some ''p1'', inc_type = Some ''pool'', chg_h24 = Some 5,
                    chg_m5 = Some (- 1)\<rparr>],
      data = [eth_record]\<rparr>"

definition fetch_resp :: "string \<Rightarrow> string \<Rightarrow> string list \<Rightarrow> rat response" where
  "fetch_resp pname net addrs =
     (if net = ''eth'' then Response 200 (Some eth_payload) else RequestFailed)"


definition eth_token_b :: token where
  "eth_token_b = ex_token ''eth'' ''0xbbbb'' ''''"


text \<open>
  A controller before the loop starts; rounds of which the second raises \<^verbatim>\<open>KeyError\<close>
  and the fourth a connection error; rounds of which the second is cancelled.
\<close>

definition ex_loop_state :: loop_state where
  "ex_loop_state = \<lparr>ls_session = None, ls_sessions_made = 0, ls_trace = []\<rparr>"

definition ex_body :: "nat \<Rightarrow> round_outcome" where
  "ex_body i = (if i = 1 then Raised (Exc ''KeyError'')
                else if i = 3 then Raised (Exc ''ClientConnectionError'')
                else Completed)"

definition cancelled_body :: "nat \<Rightarrow> round_outcome" where
  "cancelled_body i = (if i = 1 then Raised CancelledError else Completed)"

definition no_interrupt :: "nat \<Rightarrow> py_exc option" where
  "no_interrupt i = None"

section \<open>Lemmas on strings\<close>

lemma of_char_lower_char:
  "is_upper c \<Longrightarrow> (of_char (lower_char c) :: nat) = of_char c + 32"
  by (simp add: lower_char_def is_upper_def)

lemma lower_char_not_upper: "\<not> is_upper (lower_char c)"
proof (cases "is_upper c")
  case True
  then have "(of_char (lower_char c) :: nat) = of_char c + 32"
    by (rule of_char_lower_char)
  with True show ?thesis by (simp add: is_upper_def)
next
  case False
  then show ?thesis by (simp add: lower_char_def)
qed

lemma lower_char_idem: "lower_char (lower_char c) = lower_char c"
  using lower_char_not_upper [of c] by (simp add: lower_char_def [of "lower_char c"])

lemma lower_idem: "lower (lower s) = lower s"
  by (simp add: lower_def lower_char_idem)

lemma lower_eq_Nil: "lower s = [] \<longleftrightarrow> s = []"
  by (simp add: lower_def)

lemma lower_char_fixes_0x:
  "lower_char (CHR ''0'') = CHR ''0''" "lower_char (CHR ''x'') = CHR ''x''"
  by (simp_all add: lower_char_def is_upper_def)

lemma startswith_0x_iff:
  "startswith s ''0x'' \<longleftrightarrow> (\<exists>r. s = CHR ''0'' # CHR ''x'' # r)"
proof (cases s)
  case Nil
  then show ?thesis by (simp add: startswith_def)
next
  case (Cons a t)
  then show ?thesis by (cases t) (auto simp: startswith_def)
qed

lemma startswith_lower_0x: "startswith s ''0x'' \<Longrightarrow> startswith (lower s) ''0x''"
  by (auto simp: startswith_0x_iff lower_def lower_char_fixes_0x)

lemma case_variant_lower_char: "case_variant x y \<Longrightarrow> lower_char x = lower_char y"
proof -
  assume cv: "case_variant x y"
  have up: "lower_char a = b"
    if "is_upper a" "(of_char b :: nat) = of_char a + 32" for a b
  proof -
    from that have "(of_char (lower_char a) :: nat) = of_char b"
      by (simp add: of_char_lower_char)
    then show ?thesis by simp
  qed
  have keep: "lower_char b = b"
    if "is_upper a" "(of_char b :: nat) = of_char a + 32" for a b
    using that by (simp add: lower_char_def is_upper_def)
  from cv consider "x = y"
    | "is_upper x" "(of_char y :: nat) = of_char x + 32"
    | "is_upper y" "(of_char x :: nat) = of_char y + 32"
    by (auto simp: case_variant_def)
  then show ?thesis
  proof cases
    case 1
    then show ?thesis by simp
  next
    case 2
    then show ?thesis using up [of x y] keep [of x y] by simp
  next
    case 3
    then show ?thesis using up [of y x] keep [of y x] by simp
  qed
qed

lemma differ_only_in_case_lower: "differ_only_in_case a b \<Longrightarrow> lower a = lower b"
  unfolding differ_only_in_case_def lower_def
  by (induction a b rule: list_all2_induct) (auto dest: case_variant_lower_char)


section \<open>Canonicalization is idempotent\<close>

text \<open>
  Claim C4, as stated, fails on the case of the prefix itself: \<^verbatim>\<open>0xAB\<close> is hex-prefixed
  and \<^verbatim>\<open>0XAB\<close> differs from it only in letter case, but \<^verbatim>\<open>normalize_address\<close> tests
  \<^verbatim>\<open>startswith("0x")\<close>, lower-cases the first and leaves the second unchanged, so the two
  canonical strings, and the two token keys, differ.
\<close>

theorem normalize_address_upper_prefix_counterexample:
  "startswith ''0xAB'' ''0x''
   \<and> differ_only_in_case ''0xAB'' ''0XAB''
   \<and> normalize_address ''eth'' ''0xAB'' = ''0xab''
   \<and> normalize_address ''eth'' ''0XAB'' = ''0XAB''
   \<and> normalize_address ''eth'' ''0xAB'' \<noteq> normalize_address ''eth'' ''0XAB''
   \<and> key_for ''eth'' ''0xAB'' = ''eth:0xab''
   \<and> key_for ''eth'' ''0XAB'' = ''eth:0XAB''
   \<and> key_for ''eth'' ''0xAB'' \<noteq> key_for ''eth'' ''0XAB''"
  by code_simp

text \<open>
  Claim C4, amended. \<^verbatim>\<open>normalize_address\<close> is idempotent for every network id and
  address; an address that starts with the lower-case prefix \<^verbatim>\<open>0x\<close> is mapped to its
  lower-case form, so two addresses that both start with \<^verbatim>\<open>0x\<close> and differ only in
  letter case are mapped to the same string; every address that does not start with
  \<^verbatim>\<open>0x\<close> (an address with the upper-case prefix \<^verbatim>\<open>0X\<close> among them) is left unchanged.
\<close>

theorem normalize_address_canonical:
  "normalize_address n (normalize_address n a) = normalize_address n a
   \<and> (startswith a ''0x'' \<longrightarrow> normalize_address n a = lower a)
   \<and> (startswith a ''0x'' \<and> startswith b ''0x'' \<and> differ_only_in_case a b
        \<longrightarrow> normalize_address n a = normalize_address n b)
   \<and> (\<not> startswith a ''0x'' \<longrightarrow> normalize_address n a = a)"
proof (intro conjI impI)
  show "normalize_address n (normalize_address n a) = normalize_address n a"
    by (simp add: normalize_address_def lower_idem lower_eq_Nil startswith_lower_0x)
next
  assume "startswith a ''0x''"
  then show "normalize_address n a = lower a"
    by (auto simp: normalize_address_def lower_def)
next
  assume h: "startswith a ''0x'' \<and> startswith b ''0x'' \<and> differ_only_in_case a b"
  then have "lower a = lower b" by (simp add: differ_only_in_case_lower)
  moreover from h have "a \<noteq> []" "b \<noteq> []" by (auto simp: startswith_def)
  ultimately show "normalize_address n a = normalize_address n b"
    using h by (simp add: normalize_address_def)
next
  assume "\<not> startswith a ''0x''"
  then show "normalize_address n a = a" by (simp add: normalize_address_def)
qed

theorem normalize_address_canonical_witness:
  "normalize_address ''eth'' (normalize_address ''eth'' ''0xAbCd'') = ''0xabcd''
   \<and> startswith ''0xAbCd'' ''0x'' \<and> startswith ''0xaBcD'' ''0x''
   \<and> differ_only_in_case ''0xAbCd'' ''0xaBcD''
   \<and> normalize_address ''eth'' ''0xAbCd'' = normalize_address ''eth'' ''0xaBcD''
   \<and> \<not> startswith ''So1ABC'' ''0x''
   \<and> normalize_address ''solana'' ''So1ABC'' = ''So1ABC''"
proof -
  have s1: "startswith ''0xAbCd'' ''0x''" and s2: "startswith ''0xaBcD'' ''0x''"
    and s3: "\<not> startswith ''So1ABC'' ''0x''"
    by (simp_all add: startswith_def)
  have d: "differ_only_in_case ''0xAbCd'' ''0xaBcD''"
    by (simp add: differ_only_in_case_def case_variant_def is_upper_def)
  have v: "normalize_address ''eth'' ''0xAbCd'' = ''0xabcd''"
    by code_simp
  note t = normalize_address_canonical [of "''eth''" "''0xAbCd''" "''0xaBcD''"]
  from t have a: "normalize_address ''eth'' (normalize_address ''eth'' ''0xAbCd'')
             = normalize_address ''eth'' ''0xAbCd''"
    by (rule conjunct1)
  from t s1 s2 d
  have b: "normalize_address ''eth'' ''0xAbCd'' = normalize_address ''eth'' ''0xaBcD''"
    by blast
  from normalize_address_canonical [of "''solana''" "''So1ABC''" "''So1ABC''"] s3
  have c: "normalize_address ''solana'' ''So1ABC'' = ''So1ABC''" by blast
  from a v have "normalize_address ''eth'' (normalize_address ''eth'' ''0xAbCd'') = ''0xabcd''"
    by simp
  with b c s1 s2 s3 d show ?thesis by blast
qed

section \<open>Lemmas on the insertion-ordered dictionary\<close>

lemma dd_get_append:
  "dd_get (dd_append d k v) k' = (if k' = k then dd_get d k @ [v] else dd_get d k')"
  by (induction d k v rule: dd_append.induct) (auto simp: dd_get_def)

lemma dd_values_append:
  "set (dd_values (dd_append d k v)) = insert v (set (dd_values d))"
  by (induction d k v rule: dd_append.induct) (auto simp: dd_values_def)

lemma dd_values_Nil: "dd_values [] = []"
  by (simp add: dd_values_def)

lemma dd_values_append_nonempty: "dd_values (dd_append d k v) \<noteq> []"
  using dd_values_append [of d k v] by (metis empty_iff insertI1 list.set(1))

lemma dd_values_foldl_nonempty:
  "d0 = [] \<or> dd_values d0 \<noteq> [] \<Longrightarrow>
   foldl (\<lambda>d p. case f p of None \<Rightarrow> d
                    | Some m \<Rightarrow> if g p then d else dd_append d m p) d0 ps = []
   \<or> dd_values (foldl (\<lambda>d p. case f p of None \<Rightarrow> d
                    | Some m \<Rightarrow> if g p then d else dd_append d m p) d0 ps) \<noteq> []"
  by (induction ps arbitrary: d0) (auto simp: dd_values_append_nonempty split: option.splits)

lemma dd_get_foldl:
  "dd_get (foldl (\<lambda>d p. case f p of None \<Rightarrow> d
                            | Some m \<Rightarrow> if g p then d else dd_append d m p) d0 ps) mon
   = dd_get d0 mon @ filter (\<lambda>p. f p = Some mon \<and> \<not> g p) ps"
  by (induction ps arbitrary: d0) (auto simp: dd_get_append split: option.splits)

lemma dd_values_foldl:
  "set (dd_values (foldl (\<lambda>d p. case f p of None \<Rightarrow> d
                            | Some m \<Rightarrow> if g p then d else dd_append d m p) d0 ps))
   = set (dd_values d0) \<union> {p \<in> set ps. f p \<noteq> None \<and> \<not> g p}"
  by (induction ps arbitrary: d0) (auto simp: dd_values_append split: option.splits)

lemma dd_get_mon_to_profiles:
  "dd_get (mon_to_profiles st) mon = filter (assigned_to st mon) (map fst (profiles st))"
proof -
  have "dd_get (mon_to_profiles st) mon
        = dd_get [] mon @ filter (\<lambda>p. monitor_index (ps_for st p) = Some mon
                                      \<and> \<not> tokens_for st p = []) (map fst (profiles st))"
    unfolding mon_to_profiles_def by (rule dd_get_foldl)
  then show ?thesis by (simp add: dd_get_def assigned_to_def [abs_def])
qed

lemma values_mon_to_profiles:
  "set (dd_values (mon_to_profiles st))
   = {p \<in> set (map fst (profiles st)). assigned st p}"
proof -
  have "set (dd_values (mon_to_profiles st))
        = set (dd_values ([] :: (int \<times> string list) list))
          \<union> {p \<in> set (map fst (profiles st)).
               monitor_index (ps_for st p) \<noteq> None \<and> \<not> tokens_for st p = []}"
    unfolding mon_to_profiles_def by (rule dd_values_foldl)
  then show ?thesis by (simp add: assigned_def dd_values_Nil)
qed

lemma foldl_max_Max:
  "foldl (\<lambda>R p. max R (f p)) (a::int) xs
   = (if xs = [] then a else max a (Max (f ` set xs)))"
proof (induction xs arbitrary: a)
  case Nil
  then show ?case by simp
next
  case (Cons x xs)
  show ?case
  proof (cases "xs = []")
    case True
    then show ?thesis by simp
  next
    case False
    then have "Max (insert (f x) (f ` set xs)) = max (f x) (Max (f ` set xs))"
      by (simp add: Max_insert)
    with False Cons.IH [of "max a (f x)"] show ?thesis
      by (simp add: max.assoc)
  qed
qed

section \<open>The display assignment\<close>

text \<open>
  Claim C6. For every configuration snapshot and display index, the groups listed under
  the index in the display assignment are exactly the declared groups whose display
  target is that index and whose token list is non-empty, in declaration order; a group
  with a null display target is listed nowhere, and neither is a group with an empty
  token list, whatever its display target.
\<close>

theorem assignment_resolver_filter:
  "dd_get (mon_to_profiles st) mon
     = filter (\<lambda>p. monitor_index (ps_for st p) = Some mon \<and> tokens_for st p \<noteq> [])
         (map fst (profiles st))
   \<and> (pname \<in> set (dd_get (mon_to_profiles st) mon)
        \<longleftrightarrow> pname \<in> set (map fst (profiles st))
            \<and> monitor_index (ps_for st pname) = Some mon \<and> tokens_for st pname \<noteq> [])
   \<and> (monitor_index (ps_for st pname) = None
        \<longrightarrow> pname \<notin> set (dd_values (mon_to_profiles st)))
   \<and> (tokens_for st pname = []
        \<longrightarrow> pname \<notin> set (dd_values (mon_to_profiles st)))"
proof -
  have eq: "dd_get (mon_to_profiles st) mon
     = filter (\<lambda>p. monitor_index (ps_for st p) = Some mon \<and> tokens_for st p \<noteq> [])
         (map fst (profiles st))"
    by (simp add: dd_get_mon_to_profiles assigned_to_def [abs_def])
  have mem: "pname \<in> set (dd_get (mon_to_profiles st) mon)
        \<longleftrightarrow> pname \<in> set (map fst (profiles st))
            \<and> monitor_index (ps_for st pname) = Some mon \<and> tokens_for st pname \<noteq> []"
    unfolding eq by auto
  have none: "monitor_index (ps_for st pname) = None
        \<longrightarrow> pname \<notin> set (dd_values (mon_to_profiles st))"
    unfolding values_mon_to_profiles by (simp add: assigned_def)
  have empty: "tokens_for st pname = []
        \<longrightarrow> pname \<notin> set (dd_values (mon_to_profiles st))"
    unfolding values_mon_to_profiles by (simp add: assigned_def)
  from eq mem none empty show ?thesis by blast
qed

theorem assignment_resolver_filter_witness:
  "dd_get (mon_to_profiles five_groups_state) 1 = [''A'', ''E'']
   \<and> mon_to_profiles five_groups_state = [(1, [''A'', ''E'']), (0, [''D''])]
   \<and> monitor_index (ps_for five_groups_state ''B'') = None
   \<and> ''B'' \<notin> set (dd_values (mon_to_profiles five_groups_state))
   \<and> monitor_index (ps_for five_groups_state ''C'') = Some 1
   \<and> tokens_for five_groups_state ''C'' = []
   \<and> ''C'' \<notin> set (dd_values (mon_to_profiles five_groups_state))"
proof -
  note t = assignment_resolver_filter [of five_groups_state 1]
  have f: "filter (\<lambda>p. monitor_index (ps_for five_groups_state p) = Some 1
                        \<and> tokens_for five_groups_state p \<noteq> [])
             (map fst (profiles five_groups_state)) = [''A'', ''E'']"
    by code_simp
  from t [of "''A''"] f have a: "dd_get (mon_to_profiles five_groups_state) 1 = [''A'', ''E'']"
    by simp
  have m: "mon_to_profiles five_groups_state = [(1, [''A'', ''E'']), (0, [''D''])]"
    by code_simp
  have b: "monitor_index (ps_for five_groups_state ''B'') = None" by code_simp
  have c: "monitor_index (ps_for five_groups_state ''C'') = Some 1" by code_simp
  have c': "tokens_for five_groups_state ''C'' = []" by code_simp
  from t [of "''B''"] b
  have nb: "''B'' \<notin> set (dd_values (mon_to_profiles five_groups_state))" by blast
  from t [of "''C''"] c'
  have nc: "''C'' \<notin> set (dd_values (mon_to_profiles five_groups_state))" by blast
  from a m b c c' nb nc show ?thesis by blast
qed

section \<open>The round interval\<close>

text \<open>
  Claim C2. In a round of the Active state (the display assignment is not empty) the
  round interval is the larger of 10 and the greatest \<^verbatim>\<open>refresh_sec\<close> among exactly the
  declared groups with a non-null display target and a non-empty token list. When the
  intervals of those groups are 30 and 15 the round interval is 30; when the only such
  interval is 5 it is 10.
\<close>

theorem round_interval_max:
  assumes "mon_to_profiles st \<noteq> []"
  shows "round_interval st
         = max 10 (Max ((\<lambda>p. refresh_sec (ps_for st p))
                        ` {p \<in> set (map fst (profiles st)). assigned st p}))
     \<and> ((\<lambda>p. refresh_sec (ps_for st p))
            ` {p \<in> set (map fst (profiles st)). assigned st p} = {30, 15}
          \<longrightarrow> round_interval st = 30)
     \<and> ((\<lambda>p. refresh_sec (ps_for st p))
            ` {p \<in> set (map fst (profiles st)). assigned st p} = {5}
          \<longrightarrow> round_interval st = 10)"
proof -
  let ?A = "{p \<in> set (map fst (profiles st)). assigned st p}"
  let ?f = "\<lambda>p. refresh_sec (ps_for st p)"
  let ?ps = "dd_values (mon_to_profiles st)"
  have setps: "set ?ps = ?A" by (rule values_mon_to_profiles)
  have nonempty_vals: "?ps \<noteq> []"
    using dd_values_foldl_nonempty [where ?d0.0 = "[]"
        and f = "\<lambda>p. monitor_index (ps_for st p)"
        and g = "\<lambda>p. tokens_for st p = []" and ps = "map fst (profiles st)"] assms
    unfolding mon_to_profiles_def by simp
  have main: "round_interval st = max 10 (Max (?f ` ?A))"
    unfolding round_interval_def foldl_max_Max
    using nonempty_vals setps by (simp add: max.commute max.left_commute)
  then show ?thesis by auto
qed

theorem round_interval_max_witness:
  "mon_to_profiles two_groups_state \<noteq> []
   \<and> (\<lambda>p. refresh_sec (ps_for two_groups_state p))
        ` {p \<in> set (map fst (profiles two_groups_state)). assigned two_groups_state p}
      = {30, 15}
   \<and> round_interval two_groups_state = 30
   \<and> mon_to_profiles lone_group_state \<noteq> []
   \<and> (\<lambda>p. refresh_sec (ps_for lone_group_state p))
        ` {p \<in> set (map fst (profiles lone_group_state)). assigned lone_group_state p}
      = {5}
   \<and> round_interval lone_group_state = 10"
proof -
  have a2: "mon_to_profiles two_groups_state \<noteq> []" by code_simp
  have a1: "mon_to_profiles lone_group_state \<noteq> []" by code_simp
  have s2: "(\<lambda>p. refresh_sec (ps_for two_groups_state p))
        ` {p \<in> set (map fst (profiles two_groups_state)). assigned two_groups_state p}
      = {30, 15}"
    by code_simp
  have s1: "(\<lambda>p. refresh_sec (ps_for lone_group_state p))
        ` {p \<in> set (map fst (profiles lone_group_state)). assigned lone_group_state p}
      = {5}"
    by code_simp
  from round_interval_max [OF a2] s2 have r2: "round_interval two_groups_state = 30"
    by blast
  from round_interval_max [OF a1] s1 have r1: "round_interval lone_group_state = 10"
    by blast
  from a2 s2 r2 a1 s1 r1 show ?thesis by blast
qed

section \<open>Click-through: the two aggregations\<close>

lemma dd_append_keys:
  "map fst (dd_append d k v) = (if k \<in> set (map fst d) then map fst d else map fst d @ [k])"
  by (induction d k v rule: dd_append.induct) auto

lemma dd_append_distinct: "distinct (map fst d) \<Longrightarrow> distinct (map fst (dd_append d k v))"
  by (simp add: dd_append_keys)

lemma dd_foldl_distinct:
  "distinct (map fst d0) \<Longrightarrow>
   distinct (map fst (foldl (\<lambda>d p. case f p of None \<Rightarrow> d
                    | Some m \<Rightarrow> if g p then d else dd_append d m p) d0 ps))"
  by (induction ps arbitrary: d0) (auto simp: dd_append_distinct split: option.splits)

lemma mon_to_profiles_distinct: "distinct (map fst (mon_to_profiles st))"
  unfolding mon_to_profiles_def by (rule dd_foldl_distinct) simp

lemma mon_to_profiles_entry:
  assumes "(mon, profs) \<in> set (mon_to_profiles st)"
  shows "profs = filter (assigned_to st mon) (map fst (profiles st))"
proof -
  from assms mon_to_profiles_distinct [of st]
  have "map_of (mon_to_profiles st) mon = Some profs" by simp
  then have "dd_get (mon_to_profiles st) mon = profs" by (simp add: dd_get_def)
  then show ?thesis by (simp add: dd_get_mon_to_profiles)
qed

text \<open>
  \<^verbatim>\<open>start_all\<close> enables click-through on a display exactly when every group of the
  display assignment of that display allows it.
\<close>

lemma start_all_click_through_assigned:
  assumes "(mon, b) \<in> set (start_all_click_through st)"
  shows "b = list_all (\<lambda>p. click_through (ps_for st p))
               (filter (assigned_to st mon) (map fst (profiles st)))"
proof -
  from assms obtain profs where e: "(mon, profs) \<in> set (mon_to_profiles st)"
    and b: "b = list_all (\<lambda>p. click_through (ps_for st p)) profs"
    by (auto simp: start_all_click_through_def)
  from mon_to_profiles_entry [OF e] b show ?thesis by simp
qed

text \<open>
  \<^verbatim>\<open>refresh_loop\<close> aggregates over every declared group whose display target is the
  display, whether or not the group has a token.
\<close>

lemma refresh_click_through_all_targets:
  "refresh_click_through st mon
   = list_all (\<lambda>p. click_through (ps_for st p))
       (filter (\<lambda>p. monitor_index (ps_for st p) = Some mon) (map fst (profiles st)))"
  by (simp add: refresh_click_through_def refresh_profiles_of_def)

text \<open>
  Claim C8, at a configuration where the two paths differ. Display 0 has one assigned
  group, \<open>A\<close>, which allows click-through; group \<open>B\<close> has display target 0 and no token, so
  it is not in the display assignment, and switches click-through off. \<^verbatim>\<open>start_all\<close>
  enables click-through on display 0; the next round of \<^verbatim>\<open>refresh_loop\<close> disables it.
\<close>

theorem click_through_refresh_counts_empty_group:
  "mon_to_profiles empty_group_state = [(0, [''A''])]
   \<and> list_all (\<lambda>p. click_through (ps_for empty_group_state p))
        (dd_get (mon_to_profiles empty_group_state) 0)
   \<and> start_all_click_through empty_group_state = [(0, True)]
   \<and> refresh_click_through empty_group_state 0 = False"
  by code_simp

section \<open>Lemmas on number formatting\<close>

lemma of_char_digit_char:
  "0 \<le> d \<Longrightarrow> d < 10 \<Longrightarrow> (of_char (digit_char d) :: int) = 48 + d"
  by (simp add: digit_char_def)

lemma digit_char_not_dot: "0 \<le> d \<Longrightarrow> d < 10 \<Longrightarrow> digit_char d \<noteq> CHR ''.''"
proof
  assume a: "0 \<le> d" "d < 10" and e: "digit_char d = CHR ''.''"
  from a have "(of_char (digit_char d) :: int) = 48 + d" by (rule of_char_digit_char)
  with e a show False by simp
qed

lemma dec_digits_no_dot: "0 \<le> n \<Longrightarrow> CHR ''.'' \<notin> set (dec_digits n)"
proof (induction n rule: dec_digits.induct)
  case (1 n)
  show ?case
  proof (cases "n < 10")
    case True
    with "1.prems" show ?thesis
      using digit_char_not_dot [of n] by (simp add: dec_digits.simps [of n])
  next
    case False
    then have "0 \<le> n div 10" by simp
    with False "1.IH" have "CHR ''.'' \<notin> set (dec_digits (n div 10))" by simp
    moreover have "digit_char (n mod 10) \<noteq> CHR ''.''"
      by (rule digit_char_not_dot) simp_all
    ultimately show ?thesis using False by (simp add: dec_digits.simps [of n])
  qed
qed

lemma length_dec_digits:
  "0 \<le> m \<Longrightarrow> m < 10 ^ n \<Longrightarrow> 0 < n \<Longrightarrow> length (dec_digits m) \<le> n"
proof (induction m arbitrary: n rule: dec_digits.induct)
  case (1 m)
  show ?case
  proof (cases "m < 10")
    case True
    with "1.prems" show ?thesis by (simp add: dec_digits.simps [of m])
  next
    case False
    from "1.prems" obtain k where k: "n = Suc k" by (cases n) auto
    with False "1.prems" have k0: "0 < k" by (cases k) auto
    from "1.prems" k have "m div 10 < 10 ^ k" by simp
    with False "1.IH" [of k] k0 have "length (dec_digits (m div 10)) \<le> k" by simp
    with False k show ?thesis by (simp add: dec_digits.simps [of m])
  qed
qed

lemma group3_rev_set: "set (group3_rev s) \<subseteq> insert (CHR '','') (set s)"
  by (induction s rule: group3_rev.induct) auto

lemma group3_no_dot: "CHR ''.'' \<notin> set s \<Longrightarrow> CHR ''.'' \<notin> set (group3 s)"
  using group3_rev_set [of "rev s"] by (auto simp: group3_def)

lemma round_half_even_nonneg: "0 \<le> x \<Longrightarrow> 0 \<le> round_half_even x"
  by (simp add: round_half_even_def)


lemma rstrip_where_append_keep:
  "b \<noteq> [] \<Longrightarrow> \<not> P (last b) \<Longrightarrow> rstrip_where P (a @ b) = a @ b"
proof -
  assume "b \<noteq> []" "\<not> P (last b)"
  then obtain x r where "rev b = x # r" "\<not> P x"
    by (cases "rev b") (auto simp: last_rev [symmetric] simp del: last_rev)
  then show ?thesis by (simp add: rstrip_where_def)
qed

lemma rstrip_where_last: "rstrip_where P s \<noteq> [] \<Longrightarrow> \<not> P (last (rstrip_where P s))"
proof -
  assume n: "rstrip_where P s \<noteq> []"
  then have d: "dropWhile P (rev s) \<noteq> []" by (simp add: rstrip_where_def)
  then have "\<not> P (hd (dropWhile P (rev s)))" by (rule hd_dropWhile)
  with d show ?thesis by (simp add: rstrip_where_def last_rev)
qed

lemma rstrip_where_append_drop:
  "list_all P b \<Longrightarrow> rstrip_where P (a @ b) = rstrip_where P a"
proof -
  assume "list_all P b"
  then have "\<And>x. x \<in> set (rev b) \<Longrightarrow> P x" by (simp add: list_all_iff)
  then have "dropWhile P (rev b @ rev a) = dropWhile P (rev a)" by (rule dropWhile_append2)
  then show ?thesis by (simp add: rstrip_where_def)
qed

lemma rstrip_where_split: "\<exists>r. s = rstrip_where P s @ r \<and> list_all P r"
proof -
  have "rev s = takeWhile P (rev s) @ dropWhile P (rev s)" by simp
  then have "s = rev (dropWhile P (rev s)) @ rev (takeWhile P (rev s))"
    by (metis rev_append rev_rev_ident)
  moreover have "list_all P (rev (takeWhile P (rev s)))"
    by (simp add: list_all_iff) (metis set_takeWhileD)
  ultimately show ?thesis unfolding rstrip_where_def by blast
qed

lemma rstrip_where_no_match: "(\<And>x. x \<in> set a \<Longrightarrow> \<not> P x) \<Longrightarrow> rstrip_where P a = a"
proof (cases "rev a")
  case Nil
  then show ?thesis by (simp add: rstrip_where_def)
next
  case (Cons x r)
  assume "\<And>x. x \<in> set a \<Longrightarrow> \<not> P x"
  moreover from Cons have "x \<in> set a" by (metis list.set_intros(1) set_rev)
  ultimately have "\<not> P x" by blast
  with Cons have "dropWhile P (rev a) = rev a" by simp
  then show ?thesis by (simp add: rstrip_where_def)
qed

lemma trim_split:
  assumes na: "CHR ''.'' \<notin> set a" and nb: "CHR ''.'' \<notin> set b"
  shows "rstrip (rstrip (a @ ''.'' @ b) ''0'') ''.''
         = (if rstrip b ''0'' = [] then a else a @ ''.'' @ rstrip b ''0'')"
proof -
  define Z where "Z = (\<lambda>c. c = CHR ''0'')"
  define D where "D = (\<lambda>c. c = CHR ''.'')"
  define b' where "b' = rstrip_where Z b"
  have RZ: "rstrip s ''0'' = rstrip_where Z s" for s by (simp add: rstrip_def Z_def)
  have RD: "rstrip s ''.'' = rstrip_where D s" for s by (simp add: rstrip_def D_def)
  obtain r where r: "b = b' @ r" "list_all Z r"
    using rstrip_where_split [of b Z] unfolding b'_def by blast
  have e1: "rstrip_where Z (a @ ''.'' @ b) = a @ ''.'' @ b'"
  proof -
    have "rstrip_where Z (a @ ''.'' @ b) = rstrip_where Z ((a @ ''.'' @ b') @ r)"
      using r(1) by simp
    also have "\<dots> = rstrip_where Z (a @ ''.'' @ b')"
      using r(2) by (rule rstrip_where_append_drop)
    also have "\<dots> = a @ ''.'' @ b'"
    proof (cases "b' = []")
      case True
      have "rstrip_where Z (a @ ''.'') = a @ ''.''"
        by (rule rstrip_where_append_keep) (simp_all add: Z_def)
      with True show ?thesis by simp
    next
      case False
      then have "\<not> Z (last b')" unfolding b'_def by (rule rstrip_where_last)
      with False have "rstrip_where Z (a @ (''.'' @ b')) = a @ (''.'' @ b')"
        by (intro rstrip_where_append_keep) simp_all
      then show ?thesis by simp
    qed
    finally show ?thesis .
  qed
  have e2: "rstrip_where D (a @ ''.'' @ b') = (if b' = [] then a else a @ ''.'' @ b')"
  proof (cases "b' = []")
    case True
    have "rstrip_where D (a @ ''.'') = rstrip_where D a"
      by (rule rstrip_where_append_drop) (simp add: D_def)
    also have "\<dots> = a"
      by (rule rstrip_where_no_match) (use na in \<open>auto simp: D_def\<close>)
    finally show ?thesis using True by simp
  next
    case False
    have nd: "\<not> D (last (''.'' @ b'))"
    proof
      assume "D (last (''.'' @ b'))"
      with False have "last b' = CHR ''.''" by (simp add: D_def)
      with False have "CHR ''.'' \<in> set b'" by (metis last_in_set)
      moreover have "set b' \<subseteq> set b" using r(1) by (metis set_append sup_ge1)
      ultimately show False using nb by blast
    qed
    have "rstrip_where D (a @ (''.'' @ b')) = a @ (''.'' @ b')"
      by (rule rstrip_where_append_keep) (use nd in simp_all)
    then show ?thesis using False by simp
  qed
  show ?thesis unfolding RZ RD b'_def [symmetric] e1 e2 ..
qed

lemma is_digit_digit_char: "0 \<le> d \<Longrightarrow> d < 10 \<Longrightarrow> is_digit (digit_char d)"
  by (simp add: is_digit_def of_char_digit_char)

lemma dec_digits_nonempty: "dec_digits n \<noteq> []"
  by (simp add: dec_digits.simps [of n])

lemma dec_digits_digits: "0 \<le> n \<Longrightarrow> list_all is_digit (dec_digits n)"
proof (induction n rule: dec_digits.induct)
  case (1 n)
  show ?case
  proof (cases "n < 10")
    case True
    with "1.prems" show ?thesis
      by (simp add: dec_digits.simps [of n] is_digit_digit_char)
  next
    case False
    then have "0 \<le> n div 10" by simp
    with False "1.IH" have "list_all is_digit (dec_digits (n div 10))" by simp
    moreover have "is_digit (digit_char (n mod 10))"
      by (rule is_digit_digit_char) simp_all
    ultimately show ?thesis using False by (simp add: dec_digits.simps [of n])
  qed
qed

lemma numeral_value_snoc:
  "numeral_value (s @ [c]) = 10 * numeral_value s + (of_char c - 48)"
  by (simp add: numeral_value_def)

lemma numeral_value_dec_digits: "0 \<le> n \<Longrightarrow> numeral_value (dec_digits n) = n"
proof (induction n rule: dec_digits.induct)
  case (1 n)
  show ?case
  proof (cases "n < 10")
    case True
    with "1.prems" have "(of_char (digit_char n) :: int) = 48 + n"
      by (simp add: of_char_digit_char)
    with True show ?thesis
      by (simp add: dec_digits.simps [of n] numeral_value_def)
  next
    case False
    then have "0 \<le> n div 10" by simp
    with False "1.IH" have ih: "numeral_value (dec_digits (n div 10)) = n div 10" by simp
    have "(of_char (digit_char (n mod 10)) :: int) = 48 + n mod 10"
      by (rule of_char_digit_char) simp_all
    with ih False show ?thesis
      by (simp add: dec_digits.simps [of n] numeral_value_snoc)
  qed
qed

lemma numeral_value_append:
  "numeral_value (a @ b) = numeral_value a * 10 ^ length b + numeral_value b"
proof (induction b rule: rev_induct)
  case Nil
  show ?case by (simp add: numeral_value_def)
next
  case (snoc x xs)
  have "numeral_value (a @ xs @ [x]) = numeral_value ((a @ xs) @ [x])" by simp
  also have "\<dots> = 10 * numeral_value (a @ xs) + (of_char x - 48)"
    by (rule numeral_value_snoc)
  also have "\<dots> = 10 * (numeral_value a * 10 ^ length xs + numeral_value xs) + (of_char x - 48)"
    by (simp only: snoc.IH)
  also have "\<dots> = numeral_value a * 10 ^ length (xs @ [x]) + numeral_value (xs @ [x])"
    by (simp add: numeral_value_snoc algebra_simps)
  finally show ?case .
qed

lemma numeral_value_zeros: "numeral_value (replicate k (CHR ''0'')) = 0"
  by (induction k) (simp_all add: numeral_value_def)

lemma digit_char_zero: "0 < d \<Longrightarrow> d < 10 \<Longrightarrow> digit_char d \<noteq> CHR ''0''"
proof
  assume a: "0 < d" "d < 10" and e: "digit_char d = CHR ''0''"
  from a have "(of_char (digit_char d) :: int) = 48 + d" by (simp add: of_char_digit_char)
  with e a show False by simp
qed

lemma dec_digits_hd: "0 < n \<Longrightarrow> hd (dec_digits n) \<noteq> CHR ''0''"
proof (induction n rule: dec_digits.induct)
  case (1 n)
  show ?case
  proof (cases "n < 10")
    case True
    with "1.prems" show ?thesis
      by (simp add: dec_digits.simps [of n] digit_char_zero)
  next
    case False
    then have "0 < n div 10" by simp
    with False "1.IH" have "hd (dec_digits (n div 10)) \<noteq> CHR ''0''" by simp
    then show ?thesis using False
      by (simp add: dec_digits.simps [of n] dec_digits_nonempty)
  qed
qed

lemma dec_digits_0: "dec_digits 0 = ''0''"
  by code_simp

lemma digits_no_marks:
  "list_all is_digit s \<Longrightarrow> CHR '','' \<notin> set s \<and> CHR ''.'' \<notin> set s \<and> CHR ''-'' \<notin> set s"
  by (auto simp: list_all_iff is_digit_def)

lemma ungroup_group3_rev: "ungroup (group3_rev s) = ungroup s"
  by (induction s rule: group3_rev.induct) (simp_all add: ungroup_def)

lemma ungroup_rev: "ungroup (rev s) = rev (ungroup s)"
  by (simp add: ungroup_def rev_filter)

lemma ungroup_id: "CHR '','' \<notin> set s \<Longrightarrow> ungroup s = s"
  by (auto simp: ungroup_def filter_id_conv)

lemma ungroup_group3: "CHR '','' \<notin> set s \<Longrightarrow> ungroup (group3 s) = s"
  by (simp add: group3_def ungroup_rev ungroup_group3_rev ungroup_id)

lemma group3_rev_Nil: "group3_rev s = [] \<longleftrightarrow> s = []"
  by (cases s rule: group3_rev.cases) simp_all

lemma grouped_group3_rev: "CHR '','' \<notin> set s \<Longrightarrow> grouped_rev (group3_rev s)"
  by (induction s rule: group3_rev.induct) (auto simp: group3_rev_Nil)

lemma grouped_group3: "CHR '','' \<notin> set s \<Longrightarrow> grouped (group3 s)"
  by (simp add: grouped_def group3_def grouped_group3_rev)

lemma group3_short: "length s \<le> 3 \<Longrightarrow> group3 s = s"
proof -
  assume "length s \<le> 3"
  then have "length (rev s) \<le> 3" by simp
  then have "group3_rev (rev s) = rev s"
    by (cases "rev s" rule: group3_rev.cases) simp_all
  then show ?thesis by (simp add: group3_def)
qed

lemma round_half_even_near: "\<bar>of_int (round_half_even x) - x\<bar> \<le> 1 / 2"
proof -
  have "of_int \<lfloor>x\<rfloor> \<le> x" "x < of_int \<lfloor>x\<rfloor> + 1" by linarith+
  then show ?thesis by (auto simp: round_half_even_def)
qed

lemma int_part_split: "CHR ''.'' \<notin> set a \<Longrightarrow> int_part (a @ CHR ''.'' # b) = a"
  by (induction a) (auto simp: int_part_def)

lemma frac_part_split: "CHR ''.'' \<notin> set a \<Longrightarrow> frac_part (a @ CHR ''.'' # b) = b"
  by (induction a) (auto simp: frac_part_def)

lemma int_part_no_point: "CHR ''.'' \<notin> set a \<Longrightarrow> int_part a = a"
  by (induction a) (auto simp: int_part_def)

lemma frac_part_no_point: "CHR ''.'' \<notin> set a \<Longrightarrow> frac_part a = []"
  by (induction a) (auto simp: frac_part_def)


lemma format_f_decimal_form:
  assumes n: "0 < n"
  shows "decimal_form g n p (format_f False g n p)"
proof -
  define q where "q = round_half_even (\<bar>p\<bar> * 10 ^ n)"
  define ip where "ip = dec_digits (q div 10 ^ n)"
  define fp where "fp = dec_digits (q mod 10 ^ n)"
  define sgn where "sgn = (if p < 0 then ''-'' else [])"
  define gi where "gi = (if g then group3 ip else ip)"
  define b where "b = replicate (n - length fp) (CHR ''0'') @ fp"
  have q0: "0 \<le> q" unfolding q_def by (rule round_half_even_nonneg) simp
  have m0: "0 \<le> q mod 10 ^ n" and m1: "q mod 10 ^ n < 10 ^ n" by simp_all
  have d0: "0 \<le> q div 10 ^ n" using q0 by (simp add: pos_imp_zdiv_nonneg_iff)
  have dip: "list_all is_digit ip" unfolding ip_def using d0 by (rule dec_digits_digits)
  have dfp: "list_all is_digit fp" unfolding fp_def using m0 by (rule dec_digits_digits)
  have ipne: "ip \<noteq> []" unfolding ip_def by (rule dec_digits_nonempty)
  have lfp: "length fp \<le> n" unfolding fp_def using m0 m1 n by (rule length_dec_digits)
  have lb: "length b = n" using lfp by (simp add: b_def)
  have z: "is_digit (CHR ''0'')" by (simp add: is_digit_def)
  have db: "list_all is_digit b" using dfp z by (auto simp: b_def list_all_iff)
  have nip: "CHR '','' \<notin> set ip" "CHR ''.'' \<notin> set ip"
    using digits_no_marks [OF dip] by simp_all
  have ngi: "CHR ''.'' \<notin> set gi" using nip(2) by (simp add: gi_def group3_no_dot)
  have nsg: "CHR ''.'' \<notin> set sgn" by (simp add: sgn_def)
  have e: "format_f False g n p = (sgn @ gi) @ CHR ''.'' # b"
    using n by (simp add: format_f_def Let_def q_def ip_def fp_def sgn_def gi_def b_def)
  have na: "CHR ''.'' \<notin> set (sgn @ gi)" using ngi nsg by simp
  have ipt: "int_part (format_f False g n p) = sgn @ gi"
    unfolding e using na by (rule int_part_split)
  have fpt: "frac_part (format_f False g n p) = b"
    unfolding e using na by (rule frac_part_split)
  have ug: "ungroup gi = ip" using nip(1) by (simp add: gi_def ungroup_group3 ungroup_id)
  have gr: "if g then grouped gi else CHR '','' \<notin> set gi"
    using nip(1) by (simp add: gi_def grouped_group3)
  have h: "hd ip \<noteq> CHR ''0'' \<or> ip = ''0''"
  proof (cases "q div 10 ^ n = 0")
    case True
    then show ?thesis by (simp add: ip_def dec_digits_0)
  next
    case False
    with d0 have "0 < q div 10 ^ n" by simp
    then show ?thesis unfolding ip_def by (simp add: dec_digits_hd)
  qed
  have vb: "numeral_value b = q mod 10 ^ n"
    using m0 by (simp add: b_def numeral_value_append numeral_value_zeros fp_def
          numeral_value_dec_digits)
  have vi: "numeral_value ip = q div 10 ^ n"
    unfolding ip_def using d0 by (rule numeral_value_dec_digits)
  have "numeral_value (ip @ b) = q div 10 ^ n * 10 ^ n + q mod 10 ^ n"
    by (simp only: numeral_value_append vb lb vi)
  also have "\<dots> = q" by (rule div_mult_mod_eq)
  finally have val: "numeral_value (ip @ b) = q" .
  have s1: "format_f False g n p = (sgn @ gi) @ ''.'' @ b" using e by simp
  have s2: "take (length sgn) (sgn @ gi) = sgn" by simp
  have s3: "drop (length sgn) (sgn @ gi) = gi" by simp
  show ?thesis
    unfolding decimal_form_def Let_def sgn_def [symmetric] ipt fpt s2 s3 ug q_def [symmetric]
    using s1 gr ipne dip h lb db val by simp
qed

lemma all_zeros_replicate:
  "list_all (\<lambda>c. c \<in> set ''0'') r \<Longrightarrow> r = replicate (length r) (CHR ''0'')"
  by (induction r) simp_all

lemma trimmed_decimal_form:
  assumes df: "decimal_form False n p F"
  shows "trimmed_form n p (rstrip (rstrip F ''0'') ''.'')"
proof -
  define a where "a = int_part F"
  define b where "b = frac_part F"
  define b' where "b' = rstrip b ''0''"
  define t where "t = rstrip (rstrip F ''0'') ''.''"
  from df have F: "F = a @ ''.'' @ b" and lb: "length b = n" and db: "list_all is_digit b"
    by (simp_all add: decimal_form_def Let_def a_def b_def)
  have na: "CHR ''.'' \<notin> set a"
    unfolding a_def int_part_def by (auto dest: set_takeWhileD)
  have nb: "CHR ''.'' \<notin> set b" using digits_no_marks [OF db] by simp
  obtain r where r: "b = b' @ r" "list_all (\<lambda>c. c \<in> set ''0'') r"
    using rstrip_where_split [of b "\<lambda>c. c \<in> set ''0''"] unfolding b'_def rstrip_def by blast
  have rr: "r = replicate (length r) (CHR ''0'')" using r(2) by (rule all_zeros_replicate)
  have lr: "length r = n - length b'" using r(1) lb by auto
  have nb': "CHR ''.'' \<notin> set b'" using nb r(1) by auto
  have lst: "b' = [] \<or> last b' \<noteq> CHR ''0''"
    using rstrip_where_last [of "\<lambda>c. c \<in> set ''0''" b] unfolding b'_def rstrip_def by auto
  have tt: "t = (if b' = [] then a else a @ ''.'' @ b')"
    unfolding t_def b'_def F using na nb by (rule trim_split)
  have ipt: "int_part t = a"
    using na by (simp add: tt int_part_no_point int_part_split)
  have fpt: "frac_part t = b'"
    using na by (simp add: tt frac_part_no_point frac_part_split)
  have pad: "t @ (if b' = [] then ''.'' else []) @ replicate (n - length b') (CHR ''0'') = F"
  proof -
    have "t @ (if b' = [] then ''.'' else []) = a @ ''.'' @ b'" by (simp add: tt)
    then have "t @ (if b' = [] then ''.'' else []) @ replicate (n - length b') (CHR ''0'')
               = a @ ''.'' @ b' @ replicate (length r) (CHR ''0'')"
      by (simp add: lr)
    also have "\<dots> = a @ ''.'' @ b' @ r" using rr by simp
    also have "\<dots> = F" using F r(1) by simp
    finally show ?thesis .
  qed
  have c1: "t = int_part t @ (if frac_part t = [] then [] else ''.'' @ frac_part t)"
    unfolding ipt fpt by (simp add: tt)
  show ?thesis
    unfolding trimmed_form_def t_def [symmetric]
    using c1 lst df by (simp add: fpt pad)
qed

lemma round_half_even_mono_bound:
  "0 \<le> x \<Longrightarrow> x < of_int k \<Longrightarrow> round_half_even x \<le> k"
proof -
  assume "0 \<le> x" and k: "x < of_int k"
  have "\<bar>of_int (round_half_even x) - x\<bar> \<le> 1 / 2" by (rule round_half_even_near)
  with k have "(of_int (round_half_even x) :: rat) < of_int k + 1" by linarith
  then have "(of_int (round_half_even x) :: rat) < of_int (k + 1)" by simp
  then have "round_half_even x < k + 1" by (simp only: of_int_less_iff)
  then show ?thesis by simp
qed

lemma format_f_3_ungrouped:
  assumes "0 \<le> p" "p < 100"
  shows "format_f False True 3 p = format_f False False 3 p"
proof -
  define q where "q = round_half_even (\<bar>p\<bar> * 10 ^ 3)"
  have q0: "0 \<le> q" unfolding q_def by (rule round_half_even_nonneg) simp
  have "\<bar>p\<bar> * 10 ^ 3 < of_int 100000" using assms by simp
  then have "q \<le> 100000" unfolding q_def by (intro round_half_even_mono_bound) simp_all
  then have "q div 10 ^ 3 < 10 ^ 3" by simp
  moreover have "0 \<le> q div 10 ^ 3" using q0 by (simp add: pos_imp_zdiv_nonneg_iff)
  ultimately have "length (dec_digits (q div 10 ^ 3)) \<le> 3"
    by (intro length_dec_digits) simp_all
  then have "group3 (dec_digits (q div 10 ^ 3)) = dec_digits (q div 10 ^ 3)"
    by (rule group3_short)
  then show ?thesis by (simp add: format_f_def Let_def q_def)
qed

section \<open>The price formatter\<close>

text \<open>
  Claim C5. \<^verbatim>\<open>price_str\<close> maps an absent price to the placeholder (the em dash, which
  carries no currency marker), and a price to the marker \<open>$\<close> followed by: the
  2-decimal form of the price with thousands grouping when the price is at least 100;
  its 3-decimal form when it is at least 1 and below 100; its 4-decimal form when it is
  at least 0.1 and below 1; otherwise its trimmed 8-decimal form, the 8-decimal form
  without its trailing zeros and without a decimal point left dangling. The forms are
  those of \<open>decimal_form\<close> and \<open>trimmed_form\<close>: they fix the sign, the digits, the number of
  decimals and the places of the separators, and the digits are those of the price
  rounded to the nearest unit of the last decimal. The boundary cases 99.999, 100.00,
  0.999, 1.0 and 0.00000001234 (the floats these literals denote) render as stated.
\<close>

theorem price_str_forms:
  "price_str None = EM_DASH
   \<and> take 1 (price_str (Some p)) = ''$''
   \<and> (100 \<le> p \<longrightarrow> decimal_form True 2 p (drop 1 (price_str (Some p))))
   \<and> (1 \<le> p \<and> p < 100 \<longrightarrow> decimal_form False 3 p (drop 1 (price_str (Some p))))
   \<and> (FLOAT_0_1 \<le> p \<and> p < 1 \<longrightarrow> decimal_form False 4 p (drop 1 (price_str (Some p))))
   \<and> (p < FLOAT_0_1 \<longrightarrow> trimmed_form 8 p (drop 1 (price_str (Some p))))
   \<and> \<bar>of_int (round_half_even p) - p\<bar> \<le> 1 / 2
   \<and> price_str (Some FLOAT_99_999) = ''$99.999''
   \<and> price_str (Some 100) = ''$100.00''
   \<and> price_str (Some FLOAT_0_999) = ''$0.9990''
   \<and> price_str (Some 1) = ''$1.000''
   \<and> price_str (Some FLOAT_1234e_11) = ''$0.00000001''"
proof -
  have le: "FLOAT_0_1 \<le> 1" by (simp add: FLOAT_0_1_def)
  have a: "price_str None = EM_DASH" by (simp add: price_str_def)
  have m: "take 1 (price_str (Some p)) = ''$''" by (simp add: price_str_def)
  have b: "100 \<le> p \<longrightarrow> decimal_form True 2 p (drop 1 (price_str (Some p)))"
    by (simp add: price_str_def format_f_decimal_form)
  have c: "1 \<le> p \<and> p < 100 \<longrightarrow> decimal_form False 3 p (drop 1 (price_str (Some p)))"
  proof
    assume h: "1 \<le> p \<and> p < 100"
    then have "format_f False True 3 p = format_f False False 3 p"
      by (intro format_f_3_ungrouped) simp_all
    moreover have "decimal_form False 3 p (format_f False False 3 p)"
      by (rule format_f_decimal_form) simp
    ultimately show "decimal_form False 3 p (drop 1 (price_str (Some p)))"
      using h by (simp add: price_str_def)
  qed
  have d: "FLOAT_0_1 \<le> p \<and> p < 1 \<longrightarrow> decimal_form False 4 p (drop 1 (price_str (Some p)))"
    by (simp add: price_str_def format_f_decimal_form)
  have e: "p < FLOAT_0_1 \<longrightarrow> trimmed_form 8 p (drop 1 (price_str (Some p)))"
  proof
    assume h: "p < FLOAT_0_1"
    have "decimal_form False 8 p (format_f False False 8 p)"
      by (rule format_f_decimal_form) simp
    then have "trimmed_form 8 p (rstrip (rstrip (format_f False False 8 p) ''0'') ''.'')"
      by (rule trimmed_decimal_form)
    then show "trimmed_form 8 p (drop 1 (price_str (Some p)))"
      using h le by (simp add: price_str_def)
  qed
  have f: "\<bar>of_int (round_half_even p) - p\<bar> \<le> 1 / 2" by (rule round_half_even_near)
  have x1: "price_str (Some FLOAT_99_999) = ''$99.999''" by code_simp
  have x2: "price_str (Some 100) = ''$100.00''" by code_simp
  have x3: "price_str (Some FLOAT_0_999) = ''$0.9990''" by code_simp
  have x4: "price_str (Some 1) = ''$1.000''" by code_simp
  have x5: "price_str (Some FLOAT_1234e_11) = ''$0.00000001''" by code_simp
  from a m b c d e f x1 x2 x3 x4 x5 show ?thesis by blast
qed

theorem price_str_forms_witness:
  "100 \<le> FLOAT_1234567_891
   \<and> decimal_form True 2 FLOAT_1234567_891 (drop 1 (price_str (Some FLOAT_1234567_891)))
   \<and> price_str (Some FLOAT_1234567_891) = ''$1,234,567.89''
   \<and> \<not> decimal_form True 2 FLOAT_1234567_891 ''1234567.89''
   \<and> 1 \<le> FLOAT_99_999 \<and> FLOAT_99_999 < 100
   \<and> decimal_form False 3 FLOAT_99_999 (drop 1 (price_str (Some FLOAT_99_999)))
   \<and> drop 1 (price_str (Some FLOAT_99_999)) = ''99.999''
   \<and> FLOAT_0_1 \<le> FLOAT_0_999 \<and> FLOAT_0_999 < 1
   \<and> decimal_form False 4 FLOAT_0_999 (drop 1 (price_str (Some FLOAT_0_999)))
   \<and> drop 1 (price_str (Some FLOAT_0_999)) = ''0.9990''
   \<and> FLOAT_0_05 < FLOAT_0_1
   \<and> trimmed_form 8 FLOAT_0_05 (drop 1 (price_str (Some FLOAT_0_05)))
   \<and> format_f False False 8 FLOAT_0_05 = ''0.05000000''
   \<and> price_str (Some FLOAT_0_05) = ''$0.05''
   \<and> \<not> trimmed_form 8 FLOAT_0_05 ''0.05000000''
   \<and> 0 < FLOAT_0_1
   \<and> trimmed_form 8 0 (drop 1 (price_str (Some 0)))
   \<and> format_f False False 8 0 = ''0.00000000''
   \<and> price_str (Some 0) = ''$0''
   \<and> \<not> trimmed_form 8 0 ''0.''
   \<and> FLOAT_1234e_11 < FLOAT_0_1
   \<and> trimmed_form 8 FLOAT_1234e_11 (drop 1 (price_str (Some FLOAT_1234e_11)))
   \<and> format_f False False 8 FLOAT_1234e_11 = ''0.00000001''"
proof -
  have h1: "100 \<le> FLOAT_1234567_891" by (simp add: FLOAT_1234567_891_def)
  have h2: "1 \<le> FLOAT_99_999 \<and> FLOAT_99_999 < 100" by (simp add: FLOAT_99_999_def)
  have h3: "FLOAT_0_1 \<le> FLOAT_0_999 \<and> FLOAT_0_999 < 1"
    by (simp add: FLOAT_0_1_def FLOAT_0_999_def)
  have h4: "FLOAT_0_05 < FLOAT_0_1" by (simp add: FLOAT_0_1_def FLOAT_0_05_def)
  have h5: "0 < FLOAT_0_1" by (simp add: FLOAT_0_1_def)
  have h6: "FLOAT_1234e_11 < FLOAT_0_1" by (simp add: FLOAT_0_1_def FLOAT_1234e_11_def)
  from price_str_forms [of FLOAT_1234567_891] h1
  have r1: "decimal_form True 2 FLOAT_1234567_891 (drop 1 (price_str (Some FLOAT_1234567_891)))"
    by blast
  from price_str_forms [of FLOAT_99_999] h2
  have r2: "decimal_form False 3 FLOAT_99_999 (drop 1 (price_str (Some FLOAT_99_999)))"
    by blast
  from price_str_forms [of FLOAT_0_999] h3
  have r3: "decimal_form False 4 FLOAT_0_999 (drop 1 (price_str (Some FLOAT_0_999)))"
    by blast
  from price_str_forms [of FLOAT_0_05] h4
  have r4: "trimmed_form 8 FLOAT_0_05 (drop 1 (price_str (Some FLOAT_0_05)))" by blast
  from price_str_forms [of 0] h5
  have r5: "trimmed_form 8 0 (drop 1 (price_str (Some 0)))" by blast
  from price_str_forms [of FLOAT_1234e_11] h6
  have r6: "trimmed_form 8 FLOAT_1234e_11 (drop 1 (price_str (Some FLOAT_1234e_11)))" by blast
  have v1: "price_str (Some FLOAT_1234567_891) = ''$1,234,567.89''" by code_simp
  have n1: "\<not> decimal_form True 2 FLOAT_1234567_891 ''1234567.89''" by code_simp
  have v2: "drop 1 (price_str (Some FLOAT_99_999)) = ''99.999''" by code_simp
  have v3: "drop 1 (price_str (Some FLOAT_0_999)) = ''0.9990''" by code_simp
  have f4: "format_f False False 8 FLOAT_0_05 = ''0.05000000''" by code_simp
  have v4: "price_str (Some FLOAT_0_05) = ''$0.05''" by code_simp
  have n4: "\<not> trimmed_form 8 FLOAT_0_05 ''0.05000000''" by code_simp
  have f5: "format_f False False 8 0 = ''0.00000000''" by code_simp
  have v5: "price_str (Some 0) = ''$0''" by code_simp
  have n5: "\<not> trimmed_form 8 0 ''0.''" by code_simp
  have f6: "format_f False False 8 FLOAT_1234e_11 = ''0.00000001''" by code_simp
  from h1 r1 v1 n1 h2 r2 v2 have p1:
    "100 \<le> FLOAT_1234567_891
     \<and> decimal_form True 2 FLOAT_1234567_891 (drop 1 (price_str (Some FLOAT_1234567_891)))
     \<and> price_str (Some FLOAT_1234567_891) = ''$1,234,567.89''
     \<and> \<not> decimal_form True 2 FLOAT_1234567_891 ''1234567.89''
     \<and> 1 \<le> FLOAT_99_999 \<and> FLOAT_99_999 < 100
     \<and> decimal_form False 3 FLOAT_99_999 (drop 1 (price_str (Some FLOAT_99_999)))
     \<and> drop 1 (price_str (Some FLOAT_99_999)) = ''99.999''"
    by blast
  from h3 r3 v3 h4 r4 f4 v4 n4 have p2:
    "FLOAT_0_1 \<le> FLOAT_0_999 \<and> FLOAT_0_999 < 1
     \<and> decimal_form False 4 FLOAT_0_999 (drop 1 (price_str (Some FLOAT_0_999)))
     \<and> drop 1 (price_str (Some FLOAT_0_999)) = ''0.9990''
     \<and> FLOAT_0_05 < FLOAT_0_1
     \<and> trimmed_form 8 FLOAT_0_05 (drop 1 (price_str (Some FLOAT_0_05)))
     \<and> format_f False False 8 FLOAT_0_05 = ''0.05000000''
     \<and> price_str (Some FLOAT_0_05) = ''$0.05''
     \<and> \<not> trimmed_form 8 FLOAT_0_05 ''0.05000000''"
    by blast
  from h5 r5 f5 v5 n5 h6 r6 f6 have p3:
    "0 < FLOAT_0_1
     \<and> trimmed_form 8 0 (drop 1 (price_str (Some 0)))
     \<and> format_f False False 8 0 = ''0.00000000''
     \<and> price_str (Some 0) = ''$0''
     \<and> \<not> trimmed_form 8 0 ''0.''
     \<and> FLOAT_1234e_11 < FLOAT_0_1
     \<and> trimmed_form 8 FLOAT_1234e_11 (drop 1 (price_str (Some FLOAT_1234e_11)))
     \<and> format_f False False 8 FLOAT_1234e_11 = ''0.00000001''"
    by blast
  from p1 p2 p3 show ?thesis by blast
qed

section \<open>Name resolution of the composer\<close>

lemma short_addr_unchanged: "length a \<le> 10 \<Longrightarrow> short_addr a = a"
  by (simp add: short_addr_def)

lemma short_addr_shortened:
  "10 < length a \<Longrightarrow>
   short_addr a = take 6 a @ ELLIPSIS @ drop (length a - 4) a
   \<and> length (take 6 a) = 6 \<and> length (drop (length a - 4) a) = 4"
  by (simp add: short_addr_def)

lemma item_text_display_name:
  "item_text (build_item logo st cache use_cache pname t)
   = make_item_html (display_name st (ps_for st pname) t)
       (price (if use_cache then (case cache pname (key_for (network_id t) (address t)) of
                                    None \<Rightarrow> absent_sample | Some v \<Rightarrow> v)
               else absent_sample))
       (m5 (if use_cache then (case cache pname (key_for (network_id t) (address t)) of
                                    None \<Rightarrow> absent_sample | Some v \<Rightarrow> v)
               else absent_sample))
       (h24 (if use_cache then (case cache pname (key_for (network_id t) (address t)) of
                                    None \<Rightarrow> absent_sample | Some v \<Rightarrow> v)
               else absent_sample))
       (separator_text (ps_for st pname)) (bold_name (ps_for st pname))
       (bold_price (ps_for st pname)) (bold_changes (ps_for st pname))"
  by (simp add: build_item_def Let_def)

lemma lstrip_any_unchanged:
  "\<not> list_ex (\<lambda>w. startswith s w) ws \<Longrightarrow> lstrip_any ws s = s"
proof -
  assume "\<not> list_ex (\<lambda>w. startswith s w) ws"
  then have "find (\<lambda>w. w \<noteq> [] \<and> startswith s w) ws = None"
    by (simp add: find_None_iff list_ex_iff)
  then show ?thesis by (simp add: lstrip_any.simps [of ws s])
qed

lemma strip_unchanged: "\<not> ws_at_start s \<Longrightarrow> \<not> ws_at_end s \<Longrightarrow> strip s = s"
proof -
  assume a: "\<not> ws_at_start s" and b: "\<not> ws_at_end s"
  from a have l: "lstrip_any WHITESPACE s = s"
    by (simp add: ws_at_start_def lstrip_any_unchanged)
  from b have "\<not> list_ex (\<lambda>w. startswith (rev s) w) (map rev WHITESPACE)"
    by (simp add: ws_at_end_def list_ex_iff)
  then have "lstrip_any (map rev WHITESPACE) (rev s) = rev s"
    by (rule lstrip_any_unchanged)
  with l show ?thesis by (simp add: strip_def rstrip_any_def)
qed

text \<open>
  Claim C9, as stated, fails where the custom name is non-empty and blank: with
  \<^verbatim>\<open>use_custom_names\<close> set and the custom name a single space, the composer shows the
  cached feed-provided name, not the custom name.
\<close>

theorem display_name_blank_custom_counterexample:
  "use_custom_names (ps_for blank_name_state ''G'')
   \<and> custom_name blank_name_token = '' ''
   \<and> custom_name blank_name_token \<noteq> []
   \<and> display_name blank_name_state (ps_for blank_name_state ''G'') blank_name_token
       = ''Wrapped Ether''
   \<and> display_name blank_name_state (ps_for blank_name_state ''G'') blank_name_token
       \<noteq> custom_name blank_name_token"
  by code_simp

text \<open>
  Claim C9, amended. The rendered name of a token is its custom name with the
  surrounding whitespace stripped, when the group's \<^verbatim>\<open>use_custom_names\<close> is true and
  the stripped custom name is non-empty; else the cached feed-provided name, when one
  is cached and it is non-empty; else the shortened address: the address itself when
  it has at most 10 characters, and otherwise its first 6 characters, an ellipsis and
  its last 4 characters. Whitespace is what \<^verbatim>\<open>str.strip\<close> removes, the Unicode
  whitespace characters. In particular a custom name that neither starts nor ends with
  a whitespace character is shown as it is whenever it is non-empty and custom names
  are in use.
\<close>

theorem display_name_resolution:
  "(use_custom_names ps \<and> strip (custom_name t) \<noteq> []
      \<longrightarrow> display_name st ps t = strip (custom_name t))
   \<and> (\<not> (use_custom_names ps \<and> strip (custom_name t) \<noteq> [])
        \<and> token_names st (key_for (network_id t) (address t)) = Some n \<and> n \<noteq> []
      \<longrightarrow> display_name st ps t = n)
   \<and> (\<not> (use_custom_names ps \<and> strip (custom_name t) \<noteq> [])
        \<and> (token_names st (key_for (network_id t) (address t)) = None
             \<or> token_names st (key_for (network_id t) (address t)) = Some [])
      \<longrightarrow> display_name st ps t = short_addr (address t))
   \<and> (length a \<le> 10 \<longrightarrow> short_addr a = a)
   \<and> (10 < length a \<longrightarrow>
        short_addr a = take 6 a @ ELLIPSIS @ drop (length a - 4) a
        \<and> length (take 6 a) = 6 \<and> length (drop (length a - 4) a) = 4)
   \<and> (use_custom_names ps \<and> custom_name t \<noteq> [] \<and> strip (custom_name t) = custom_name t
      \<longrightarrow> display_name st ps t = custom_name t)
   \<and> (use_custom_names ps \<and> custom_name t \<noteq> []
        \<and> \<not> ws_at_start (custom_name t) \<and> \<not> ws_at_end (custom_name t)
      \<longrightarrow> display_name st ps t = custom_name t)"
proof -
  have a: "use_custom_names ps \<and> strip (custom_name t) \<noteq> []
      \<longrightarrow> display_name st ps t = strip (custom_name t)"
    by (simp add: display_name_def Let_def)
  have b: "\<not> (use_custom_names ps \<and> strip (custom_name t) \<noteq> [])
        \<and> token_names st (key_for (network_id t) (address t)) = Some n \<and> n \<noteq> []
      \<longrightarrow> display_name st ps t = n"
    by (auto simp: display_name_def Let_def)
  have c: "\<not> (use_custom_names ps \<and> strip (custom_name t) \<noteq> [])
        \<and> (token_names st (key_for (network_id t) (address t)) = None
             \<or> token_names st (key_for (network_id t) (address t)) = Some [])
      \<longrightarrow> display_name st ps t = short_addr (address t)"
    by (auto simp: display_name_def Let_def)
  have d: "length a \<le> 10 \<longrightarrow> short_addr a = a"
    by (simp add: short_addr_unchanged)
  have e: "10 < length a \<longrightarrow>
        short_addr a = take 6 a @ ELLIPSIS @ drop (length a - 4) a
        \<and> length (take 6 a) = 6 \<and> length (drop (length a - 4) a) = 4"
    using short_addr_shortened [of a] by blast
  have f: "use_custom_names ps \<and> custom_name t \<noteq> [] \<and> strip (custom_name t) = custom_name t
      \<longrightarrow> display_name st ps t = custom_name t"
    by (simp add: display_name_def Let_def)
  have g: "use_custom_names ps \<and> custom_name t \<noteq> []
        \<and> \<not> ws_at_start (custom_name t) \<and> \<not> ws_at_end (custom_name t)
      \<longrightarrow> display_name st ps t = custom_name t"
    using f by (simp add: strip_unchanged)
  from a b c d e f g show ?thesis by blast
qed

theorem display_name_resolution_witness:
  "use_custom_names (ps_for blank_name_state ''G'')
   \<and> strip (custom_name padded_name_token) = ''WETH''
   \<and> display_name blank_name_state (ps_for blank_name_state ''G'') padded_name_token = ''WETH''
   \<and> strip (custom_name blank_name_token) = []
   \<and> token_names blank_name_state (key_for (network_id blank_name_token) (address blank_name_token))
       = Some ''Wrapped Ether''
   \<and> display_name blank_name_state (ps_for blank_name_state ''G'') blank_name_token
       = ''Wrapped Ether''
   \<and> strip (custom_name unnamed_token) = []
   \<and> token_names blank_name_state (key_for (network_id unnamed_token) (address unnamed_token))
       = None
   \<and> display_name blank_name_state (ps_for blank_name_state ''G'') unnamed_token
       = short_addr (address unnamed_token)
   \<and> 10 < length (address unnamed_token)
   \<and> short_addr (address unnamed_token) = ''0xdac1'' @ ELLIPSIS @ ''1ec7''
   \<and> length (address short_token) \<le> 10
   \<and> short_addr (address short_token) = ''EQabc12345''
   \<and> strip (custom_name nbsp_name_token) = []
   \<and> display_name blank_name_state (ps_for blank_name_state ''G'') nbsp_name_token
       = ''Wrapped Ether''
   \<and> strip (custom_name wide_padded_name_token) = ''WETH''
   \<and> display_name blank_name_state (ps_for blank_name_state ''G'') wide_padded_name_token
       = ''WETH''
   \<and> custom_name plain_name_token = ''Wrapped ETH''
   \<and> \<not> ws_at_start (custom_name plain_name_token)
   \<and> \<not> ws_at_end (custom_name plain_name_token)
   \<and> display_name blank_name_state (ps_for blank_name_state ''G'') plain_name_token
       = ''Wrapped ETH''"
proof -
  let ?ps = "ps_for blank_name_state ''G''"
  have u: "use_custom_names ?ps" by code_simp
  have s1: "strip (custom_name padded_name_token) = ''WETH''" by code_simp
  have s2: "strip (custom_name blank_name_token) = []" by code_simp
  have s3: "strip (custom_name unnamed_token) = []" by code_simp
  have n2: "token_names blank_name_state
              (key_for (network_id blank_name_token) (address blank_name_token))
            = Some ''Wrapped Ether''" by code_simp
  have n3: "token_names blank_name_state
              (key_for (network_id unnamed_token) (address unnamed_token)) = None"
    by code_simp
  have l3: "10 < length (address unnamed_token)" by code_simp
  have l4: "length (address short_token) \<le> 10" by code_simp
  have t3: "take 6 (address unnamed_token) = ''0xdac1''" by code_simp
  have d3: "drop (length (address unnamed_token) - 4) (address unnamed_token) = ''1ec7''"
    by code_simp
  have a4: "address short_token = ''EQabc12345''" by code_simp
  from display_name_resolution [of ?ps padded_name_token blank_name_state] u s1
  have r1: "display_name blank_name_state ?ps padded_name_token = ''WETH''" by simp
  from display_name_resolution [of ?ps blank_name_token blank_name_state "''Wrapped Ether''"]
    s2 n2
  have r2: "display_name blank_name_state ?ps blank_name_token = ''Wrapped Ether''" by simp
  from display_name_resolution [of ?ps unnamed_token blank_name_state] s3 n3
  have r3: "display_name blank_name_state ?ps unnamed_token = short_addr (address unnamed_token)"
    by simp
  from display_name_resolution [of ?ps unnamed_token blank_name_state _ "address unnamed_token"]
    l3 t3 d3
  have r4: "short_addr (address unnamed_token) = ''0xdac1'' @ ELLIPSIS @ ''1ec7''" by simp
  from display_name_resolution [of ?ps unnamed_token blank_name_state _ "address short_token"]
    l4 a4
  have r5: "short_addr (address short_token) = ''EQabc12345''" by simp
  have s6: "strip (custom_name nbsp_name_token) = []" by code_simp
  have n6: "token_names blank_name_state
              (key_for (network_id nbsp_name_token) (address nbsp_name_token))
            = Some ''Wrapped Ether''" by code_simp
  from display_name_resolution [of ?ps nbsp_name_token blank_name_state "''Wrapped Ether''"]
    s6 n6
  have r6: "display_name blank_name_state ?ps nbsp_name_token = ''Wrapped Ether''" by simp
  have s7: "strip (custom_name wide_padded_name_token) = ''WETH''" by code_simp
  from display_name_resolution [of ?ps wide_padded_name_token blank_name_state] u s7
  have r7: "display_name blank_name_state ?ps wide_padded_name_token = ''WETH''" by simp
  have c8: "custom_name plain_name_token = ''Wrapped ETH''" by code_simp
  have w8: "\<not> ws_at_start (custom_name plain_name_token)"
    "\<not> ws_at_end (custom_name plain_name_token)" by code_simp+
  from display_name_resolution [of ?ps plain_name_token blank_name_state] u c8 w8
  have r8: "display_name blank_name_state ?ps plain_name_token = ''Wrapped ETH''" by simp
  from u s1 r1 s2 n2 r2 s3 n3 r3 l3 r4 l4 r5 have p1:
    "use_custom_names (ps_for blank_name_state ''G'')
     \<and> strip (custom_name padded_name_token) = ''WETH''
     \<and> display_name blank_name_state (ps_for blank_name_state ''G'') padded_name_token = ''WETH''
     \<and> strip (custom_name blank_name_token) = []
     \<and> token_names blank_name_state (key_for (network_id blank_name_token) (address blank_name_token))
         = Some ''Wrapped Ether''
     \<and> display_name blank_name_state (ps_for blank_name_state ''G'') blank_name_token
         = ''Wrapped Ether''
     \<and> strip (custom_name unnamed_token) = []
     \<and> token_names blank_name_state (key_for (network_id unnamed_token) (address unnamed_token))
         = None
     \<and> display_name blank_name_state (ps_for blank_name_state ''G'') unnamed_token
         = short_addr (address unnamed_token)
     \<and> 10 < length (address unnamed_token)
     \<and> short_addr (address unnamed_token) = ''0xdac1'' @ ELLIPSIS @ ''1ec7''
     \<and> length (address short_token) \<le> 10
     \<and> short_addr (address short_token) = ''EQabc12345''" by blast
  from p1 s6 r6 s7 r7 c8 w8 r8 show ?thesis by blast
qed

section \<open>Marquee mode\<close>

lemma update_marquee_state_marquee:
  "tk_marquee (update_marquee_state hint tk)
   \<longleftrightarrow> 10 < length (tk_order tk) \<or> tk_width tk - 20 < hint (tk_hbox tk)"
  by (simp add: update_marquee_state_def Let_def)

lemma update_marquee_state_fields:
  "tk_order (update_marquee_state hint tk) = tk_order tk"
  "tk_hbox (update_marquee_state hint tk) = tk_hbox tk"
  "tk_width (update_marquee_state hint tk) = tk_width tk"
  "tk_alignment (update_marquee_state hint tk)
     = (if tk_marquee (update_marquee_state hint tk) then AlignLeft else AlignHCenter)"
  "tk_offset (update_marquee_state hint tk)
     = (if \<not> tk_marquee (update_marquee_state hint tk) \<and> tk_marquee tk then 0
        else tk_offset tk)"
  by (simp_all add: update_marquee_state_def Let_def)

lemma layout_track_fields:
  "tk_order (layout_track hint tk) = tk_order tk"
  "tk_hbox (layout_track hint tk) = tk_hbox tk"
  "tk_width (layout_track hint tk) = tk_width tk"
  "tk_marquee (layout_track hint tk) = tk_marquee tk"
  "tk_offset (layout_track hint tk) = tk_offset tk"
  by (simp_all add: layout_track_def Let_def)

lemma update_items_fields:
  "tk_order (update_items hint tk its) = map item_key its"
  "tk_width (update_items hint tk its) = tk_width tk"
  "tk_marquee (update_items hint tk its)
   \<longleftrightarrow> 10 < length its \<or> tk_width tk - 20 < hint (tk_hbox (update_items hint tk its))"
  "tk_alignment (update_items hint tk its)
     = (if tk_marquee (update_items hint tk its) then AlignLeft else AlignHCenter)"
  "tk_offset (update_items hint tk its)
     = (if \<not> tk_marquee (update_items hint tk its) \<and> tk_marquee tk then 0 else tk_offset tk)"
  by (simp_all add: update_items_def Let_def update_marquee_state_marquee
        update_marquee_state_fields layout_track_fields)

lemma set_initial_items_fields:
  "tk_order (set_initial_items hint tk its) = map item_key its"
  "tk_width (set_initial_items hint tk its) = tk_width tk"
  "tk_marquee (set_initial_items hint tk its)
   \<longleftrightarrow> 10 < length its \<or> tk_width tk - 20 < hint (tk_hbox (set_initial_items hint tk its))"
  "tk_alignment (set_initial_items hint tk its)
     = (if tk_marquee (set_initial_items hint tk its) then AlignLeft else AlignHCenter)"
  "tk_offset (set_initial_items hint tk its)
     = (if \<not> tk_marquee (set_initial_items hint tk its) \<and> tk_marquee tk then 0
        else tk_offset tk)"
  by (simp_all add: set_initial_items_def Let_def update_marquee_state_marquee
        update_marquee_state_fields layout_track_fields)

lemma layout_track_track_x:
  "tk_track_x (layout_track hint tk)
     = (if tk_marquee tk then - (tk_offset tk mod max (hint (tk_hbox tk)) 1)
        else (tk_width tk - max (hint (tk_hbox tk)) 1) div 2)"
  by (simp add: layout_track_def Let_def)

lemma update_marquee_state_track_x:
  "tk_track_x (update_marquee_state hint tk) = tk_track_x tk"
  by (simp add: update_marquee_state_def Let_def)

text \<open>
  After an item-list update of a ticker, by \<^verbatim>\<open>update_items\<close> or by \<^verbatim>\<open>set_initial_items\<close>,
  the item count is the length of the new list, and scrolling mode is engaged exactly
  when the item count exceeds 10 or the natural width of the new content exceeds the
  available width minus 20. The alignment of the layout follows the new mode, and an
  offset left by previous scrolling is reset when the new mode is static.
\<close>

lemma item_update_marquee_mode:
  "length (tk_order (update_items hint tk its)) = length its"
  "length (tk_order (set_initial_items hint tk its)) = length its"
  "tk_marquee (update_items hint tk its)
     \<longleftrightarrow> 10 < length its \<or> tk_width tk - 20 < hint (tk_hbox (update_items hint tk its))"
  "tk_marquee (set_initial_items hint tk its)
     \<longleftrightarrow> 10 < length its
         \<or> tk_width tk - 20 < hint (tk_hbox (set_initial_items hint tk its))"
  "tk_alignment (update_items hint tk its)
     = (if tk_marquee (update_items hint tk its) then AlignLeft else AlignHCenter)"
  "tk_alignment (set_initial_items hint tk its)
     = (if tk_marquee (set_initial_items hint tk its) then AlignLeft else AlignHCenter)"
  by (simp_all add: update_items_fields set_initial_items_fields)

text \<open>
  The track, however, is placed by \<^verbatim>\<open>_layout_track\<close> before \<^verbatim>\<open>_update_marquee_state\<close>
  computes the new mode, so its position follows the mode the ticker had before the
  update: centred when the ticker was static, at the scroll offset when it was
  scrolling.
\<close>

lemma item_update_track_position:
  "tk_track_x (update_items hint tk its)
     = (if tk_marquee tk
        then - (tk_offset tk mod max (hint (tk_hbox (update_items hint tk its))) 1)
        else (tk_width tk - max (hint (tk_hbox (update_items hint tk its))) 1) div 2)"
  by (simp add: update_items_def Let_def update_marquee_state_track_x layout_track_track_x
        update_marquee_state_fields layout_track_fields)

text \<open>
  Claim C7. The mode engaged by an item-list update is the one the claim states, but
  its part \<open>exactly 10 items whose content fits yield static centering\<close> fails when the ticker
  was scrolling before the update. A ticker 1920 wide that scrolls 11 items (offset 2)
  is updated to 10 items whose natural width, 1020, is within the threshold 1900: the
  mode becomes static, the alignment centred and the offset zero, but the track stays
  at the scrolled position \<open>-2\<close> instead of the centred position \<open>450\<close>. The same ten
  items on a ticker that was not scrolling are centred, and so is the scrolled ticker
  once \<^verbatim>\<open>_relayout\<close> runs again.
\<close>

theorem update_items_static_not_centred:
  "tk_marquee ex_scrolling_ticker
   \<and> tk_offset ex_scrolling_ticker = 2
   \<and> tk_width ex_scrolling_ticker = 1920
   \<and> length (tk_order ex_scrolling_ticker) = 11
   \<and> length (ex_items 10) = 10
   \<and> ex_hint (tk_hbox (update_items ex_hint ex_scrolling_ticker (ex_items 10))) = 1020
   \<and> length (tk_order (update_items ex_hint ex_scrolling_ticker (ex_items 10))) = 10
   \<and> \<not> tk_marquee (update_items ex_hint ex_scrolling_ticker (ex_items 10))
   \<and> tk_alignment (update_items ex_hint ex_scrolling_ticker (ex_items 10)) = AlignHCenter
   \<and> tk_offset (update_items ex_hint ex_scrolling_ticker (ex_items 10)) = 0
   \<and> tk_track_x (update_items ex_hint ex_scrolling_ticker (ex_items 10)) = - 2
   \<and> (tk_width ex_scrolling_ticker - 1020) div 2 = 450
   \<and> tk_track_x (update_items ex_hint ex_ticker (ex_items 10)) = 450
   \<and> tk_track_x (set_initial_items ex_hint ex_ticker (ex_items 10)) = 450
   \<and> tk_track_x (relayout ex_hint 1920
                    (update_items ex_hint ex_scrolling_ticker (ex_items 10))) = 450
   \<and> tk_marquee (update_items ex_hint ex_ticker (ex_items 11))
   \<and> tk_marquee (set_initial_items ex_hint ex_ticker (ex_items 11))"
  by code_simp

section \<open>What a fetch writes into the result cache\<close>

lemma map_add_upd_snoc: "m(k \<mapsto> v) ++ map_of xs = m ++ map_of (xs @ [(k, v)])"
  by (rule ext) (simp add: map_add_def split: option.splits)

lemma store_tokens_results:
  "acc_results (foldl (store_token pyfloat ps net pools) acc toks)
   = acc_results acc
     ++ map_of (rev (map (\<lambda>tok. (tok_key net tok, sample_of pyfloat pools tok)) toks))"
proof (induction toks arbitrary: acc)
  case Nil
  then show ?case by simp
next
  case (Cons tok toks)
  have "acc_results (store_token pyfloat ps net pools acc tok)
        = (acc_results acc)(tok_key net tok \<mapsto> sample_of pyfloat pools tok)"
    by (simp add: store_token_def)
  with Cons.IH [of "store_token pyfloat ps net pools acc tok"] show ?case
    by (simp only: foldl_Cons list.map rev.simps map_add_upd_snoc)
qed

lemma fetch_network_results:
  "acc_results (fetch_network pyfloat resp ps acc batch)
   = acc_results acc ++ map_of (rev (batch_entries pyfloat resp batch))"
proof (cases "batch_payload (resp (fst batch) (map (normalize_address (fst batch)) (snd batch)))")
  case None
  then have "fetch_network pyfloat resp ps acc batch = acc"
    by (auto simp: fetch_network_def batch_payload_def split: response.splits if_splits)
  moreover from None have "batch_entries pyfloat resp batch = []"
    by (simp add: batch_entries_def)
  ultimately show ?thesis by simp
next
  case (Some payload)
  then have "fetch_network pyfloat resp ps acc batch
      = foldl (store_token pyfloat ps (fst batch) (pools_of (included payload))) acc (data payload)"
    by (auto simp: fetch_network_def batch_payload_def split: response.splits if_splits)
  moreover from Some have "batch_entries pyfloat resp batch
      = map (\<lambda>tok. (tok_key (fst batch) tok,
                       sample_of pyfloat (pools_of (included payload)) tok)) (data payload)"
    by (simp add: batch_entries_def)
  ultimately show ?thesis by (simp only: store_tokens_results)
qed

lemma fetch_networks_results:
  "acc_results (foldl (fetch_network pyfloat resp ps) acc batches)
   = acc_results acc ++ map_of (rev (concat (map (batch_entries pyfloat resp) batches)))"
proof (induction batches arbitrary: acc)
  case Nil
  then show ?case by simp
next
  case (Cons b bs)
  have "acc_results (foldl (fetch_network pyfloat resp ps) acc (b # bs))
        = (acc_results acc ++ map_of (rev (batch_entries pyfloat resp b)))
          ++ map_of (rev (concat (map (batch_entries pyfloat resp) bs)))"
    using Cons.IH [of "fetch_network pyfloat resp ps acc b"]
    by (simp only: foldl_Cons fetch_network_results)
  also have "\<dots> = acc_results acc
          ++ map_of (rev (concat (map (batch_entries pyfloat resp) (b # bs))))"
    by (simp only: list.map concat.simps rev_append map_of_append map_add_assoc)
  finally show ?case .
qed

lemma fetch_group_results:
  "acc_results (fetch_group pyfloat resp ps tokens names logos)
   = map_of (rev (response_entries pyfloat resp tokens))"
  by (simp add: fetch_group_def fetch_networks_results response_entries_def)

lemma ps_for_cong:
  "profile_settings st' = profile_settings st \<Longrightarrow> settings st' = settings st
   \<Longrightarrow> ps_for st' = ps_for st"
  by (rule ext) (simp add: ps_for_def split: option.splits)

lemma tokens_for_cong: "profiles st' = profiles st \<Longrightarrow> tokens_for st' = tokens_for st"
  by (rule ext) (simp add: tokens_for_def)

lemma refresh_group_config:
  "profiles (fst (refresh_group pyfloat resp ctl p)) = profiles (fst ctl)"
  "profile_settings (fst (refresh_group pyfloat resp ctl p)) = profile_settings (fst ctl)"
  "settings (fst (refresh_group pyfloat resp ctl p)) = settings (fst ctl)"
  by (simp_all add: refresh_group_def Let_def)

lemma refresh_group_reads:
  "ps_for (fst (refresh_group pyfloat resp ctl p)) = ps_for (fst ctl)"
  "tokens_for (fst (refresh_group pyfloat resp ctl p)) = tokens_for (fst ctl)"
  "assigned (fst (refresh_group pyfloat resp ctl p)) = assigned (fst ctl)"
proof -
  show a: "ps_for (fst (refresh_group pyfloat resp ctl p)) = ps_for (fst ctl)"
    by (rule ps_for_cong) (simp_all add: refresh_group_config)
  show b: "tokens_for (fst (refresh_group pyfloat resp ctl p)) = tokens_for (fst ctl)"
    by (rule tokens_for_cong) (simp add: refresh_group_config)
  show "assigned (fst (refresh_group pyfloat resp ctl p)) = assigned (fst ctl)"
    by (rule ext) (simp add: assigned_def a b)
qed

lemma refresh_group_cache:
  "snd (refresh_group pyfloat resp ctl p) q
   = (if q = p \<and> assigned (fst ctl) p
      then snd ctl p
           ++ map_of (rev (response_entries pyfloat (resp p) (tokens_for (fst ctl) p)))
      else snd ctl q)"
  by (auto simp: refresh_group_def Let_def assigned_def fetch_group_results)

lemma refresh_groups_cache:
  assumes "distinct names"
  shows "snd (foldl (refresh_group pyfloat resp) ctl names) q
         = (if q \<in> set names \<and> assigned (fst ctl) q
            then snd ctl q
                 ++ map_of (rev (response_entries pyfloat (resp q) (tokens_for (fst ctl) q)))
            else snd ctl q)"
  using assms
proof (induction names arbitrary: ctl)
  case Nil
  then show ?case by simp
next
  case (Cons p names)
  let ?c = "refresh_group pyfloat resp ctl p"
  from Cons.prems have d: "distinct names" and np: "p \<notin> set names" by simp_all
  have "snd (foldl (refresh_group pyfloat resp) ctl (p # names)) q
        = (if q \<in> set names \<and> assigned (fst ?c) q
           then snd ?c q
                ++ map_of (rev (response_entries pyfloat (resp q) (tokens_for (fst ?c) q)))
           else snd ?c q)"
    using Cons.IH [OF d, of ?c] by simp
  then show ?case
    using np by (auto simp: refresh_group_reads refresh_group_cache)
qed

lemma fetch_round_cache:
  assumes "distinct (map fst (profiles st))"
  shows "snd (fetch_round pyfloat resp st cache) pname
         = (if pname \<in> set (map fst (profiles st)) \<and> assigned st pname
            then cache pname
                 ++ map_of (rev (response_entries pyfloat (resp pname) (tokens_for st pname)))
            else cache pname)"
  unfolding fetch_round_def using refresh_groups_cache [OF assms, of pyfloat resp "(st, cache)" pname]
  by simp

lemma dd_append_key_set: "fst ` set (dd_append d k v) = insert k (fst ` set d)"
  using dd_append_keys [of d k v] by (metis (no_types, lifting) insert_absorb list.set_map
      set_append list.simps(15) Un_insert_right sup_bot.right_neutral empty_set)

lemma dd_foldl_append_keys:
  "fst ` set (foldl (\<lambda>d t. dd_append d (f t) (g t)) d0 ts) = fst ` set d0 \<union> f ` set ts"
  by (induction ts arbitrary: d0) (simp_all add: dd_append_key_set)

lemma dd_foldl_append_distinct:
  "distinct (map fst d0) \<Longrightarrow> distinct (map fst (foldl (\<lambda>d t. dd_append d (f t) (g t)) d0 ts))"
  by (induction ts arbitrary: d0) (auto simp: dd_append_distinct)

lemma by_net_keys: "fst ` set (by_net tokens) = network_id ` set tokens"
  unfolding by_net_def by (simp add: dd_foldl_append_keys)

lemma by_net_distinct: "distinct (map fst (by_net tokens))"
  unfolding by_net_def by (rule dd_foldl_append_distinct) simp

lemma by_net_entry: "(net, addrs) \<in> set (by_net tokens) \<Longrightarrow> dd_get (by_net tokens) net = addrs"
  using by_net_distinct [of tokens] by (simp add: dd_get_def)

lemma batch_entries_mem:
  "(k, v) \<in> set (batch_entries pyfloat resp batch)
   \<longleftrightarrow> (\<exists>payload tok.
          batch_payload (resp (fst batch) (map (normalize_address (fst batch)) (snd batch)))
            = Some payload
          \<and> tok \<in> set (data payload) \<and> k = tok_key (fst batch) tok
          \<and> v = sample_of pyfloat (pools_of (included payload)) tok)"
proof (cases "batch_payload (resp (fst batch) (map (normalize_address (fst batch)) (snd batch)))")
  case None
  then show ?thesis by (simp add: batch_entries_def)
next
  case (Some payload)
  then show ?thesis by (auto simp: batch_entries_def)
qed

lemma response_entries_mem:
  "(k, v) \<in> set (response_entries pyfloat resp tokens)
   \<longleftrightarrow> (\<exists>net payload tok.
          net \<in> network_id ` set tokens
          \<and> batch_payload (batch_of resp tokens net) = Some payload
          \<and> tok \<in> set (data payload) \<and> k = tok_key net tok
          \<and> v = sample_of pyfloat (pools_of (included payload)) tok)"
proof
  assume "(k, v) \<in> set (response_entries pyfloat resp tokens)"
  then obtain batch where b: "batch \<in> set (by_net tokens)"
    and e: "(k, v) \<in> set (batch_entries pyfloat resp batch)"
    by (auto simp: response_entries_def)
  obtain net addrs where ba: "batch = (net, addrs)" by (cases batch)
  with b have g: "dd_get (by_net tokens) net = addrs" by (simp add: by_net_entry)
  from b ba have n: "net \<in> network_id ` set tokens"
    using by_net_keys [of tokens] by force
  from e ba g obtain payload tok where
    "batch_payload (batch_of resp tokens net) = Some payload"
    "tok \<in> set (data payload)" "k = tok_key net tok"
    "v = sample_of pyfloat (pools_of (included payload)) tok"
    by (auto simp: batch_entries_mem batch_of_def)
  with n show "\<exists>net payload tok.
          net \<in> network_id ` set tokens
          \<and> batch_payload (batch_of resp tokens net) = Some payload
          \<and> tok \<in> set (data payload) \<and> k = tok_key net tok
          \<and> v = sample_of pyfloat (pools_of (included payload)) tok" by blast
next
  assume "\<exists>net payload tok.
          net \<in> network_id ` set tokens
          \<and> batch_payload (batch_of resp tokens net) = Some payload
          \<and> tok \<in> set (data payload) \<and> k = tok_key net tok
          \<and> v = sample_of pyfloat (pools_of (included payload)) tok"
  then obtain net payload tok where n: "net \<in> network_id ` set tokens"
    and p: "batch_payload (batch_of resp tokens net) = Some payload"
    and t: "tok \<in> set (data payload)" and k: "k = tok_key net tok"
    and v: "v = sample_of pyfloat (pools_of (included payload)) tok" by blast
  from n obtain addrs where b: "(net, addrs) \<in> set (by_net tokens)"
    using by_net_keys [of tokens] by force
  then have g: "dd_get (by_net tokens) net = addrs" by (rule by_net_entry)
  from p t k v g have "(k, v) \<in> set (batch_entries pyfloat resp (net, addrs))"
    by (auto simp: batch_entries_mem batch_of_def)
  with b show "(k, v) \<in> set (response_entries pyfloat resp tokens)"
    by (auto simp: response_entries_def)
qed




lemma returned_keys_entries:
  "map fst (response_entries pyfloat resp tokens) = returned_keys resp tokens"
proof -
  have "map fst (batch_entries pyfloat resp batch)
        = (case batch_payload
                  (resp (fst batch) (map (normalize_address (fst batch)) (snd batch))) of
             None \<Rightarrow> []
           | Some payload \<Rightarrow> map (tok_key (fst batch)) (data payload))" for batch
    by (simp add: batch_entries_def comp_def split: option.splits)
  then show ?thesis
    by (simp add: response_entries_def returned_keys_def map_concat comp_def)
qed

lemma returned_keys_iff:
  "k \<in> set (returned_keys resp tokens)
   \<longleftrightarrow> (\<exists>net payload tok.
          net \<in> network_id ` set tokens
          \<and> batch_payload (batch_of resp tokens net) = Some payload
          \<and> tok \<in> set (data payload) \<and> k = tok_key net tok)"
proof -
  have "k \<in> set (returned_keys resp tokens)
        \<longleftrightarrow> (\<exists>v. (k, v) \<in> set (response_entries (\<lambda>x. None) resp tokens))"
    unfolding returned_keys_entries [of "\<lambda>x. None", symmetric] by force
  then show ?thesis unfolding response_entries_mem by blast
qed

lemma merged_lookup:
  "(m ++ map_of (rev es)) k = (if k \<in> set (map fst es) then map_of (rev es) k else m k)"
proof (cases "k \<in> set (map fst es)")
  case True
  then have "k \<in> fst ` set (rev es)" by simp
  then obtain v where "map_of (rev es) k = Some v"
    by (metis map_of_eq_None_iff not_Some_eq)
  with True show ?thesis by (simp add: map_add_def)
next
  case False
  then have "k \<notin> fst ` set (rev es)" by simp
  then have "map_of (rev es) k = None" by (simp add: map_of_eq_None_iff)
  with False show ?thesis by (simp add: map_add_def)
qed

lemma fetch_round_lookup:
  assumes "distinct (map fst (profiles st))"
  shows "snd (fetch_round pyfloat resp st cache) pname k
         = (if pname \<in> set (map fst (profiles st)) \<and> assigned st pname
               \<and> k \<in> set (returned_keys (resp pname) (tokens_for st pname))
            then map_of (rev (response_entries pyfloat (resp pname) (tokens_for st pname))) k
            else cache pname k)"
  unfolding fetch_round_cache [OF assms] returned_keys_entries [of pyfloat, symmetric]
  by (simp add: merged_lookup)

lemma fetch_round_dom:
  assumes "distinct (map fst (profiles st))"
  shows "dom (cache pname) \<subseteq> dom (snd (fetch_round pyfloat resp st cache) pname)"
  unfolding fetch_round_cache [OF assms] by auto

lemma returned_lookup_Some:
  assumes "k \<in> set (returned_keys resp tokens)"
  shows "\<exists>net payload tok.
          net \<in> network_id ` set tokens
          \<and> batch_payload (batch_of resp tokens net) = Some payload
          \<and> tok \<in> set (data payload) \<and> k = tok_key net tok
          \<and> map_of (rev (response_entries pyfloat resp tokens)) k
              = Some (sample_of pyfloat (pools_of (included payload)) tok)"
proof -
  from assms have "k \<in> fst ` set (rev (response_entries pyfloat resp tokens))"
    unfolding returned_keys_entries [of pyfloat, symmetric] by simp
  then obtain v where v: "map_of (rev (response_entries pyfloat resp tokens)) k = Some v"
    by (metis map_of_eq_None_iff not_Some_eq)
  then have "(k, v) \<in> set (response_entries pyfloat resp tokens)"
    using map_of_SomeD by fastforce
  then obtain net payload tok where
    "net \<in> network_id ` set tokens"
    "batch_payload (batch_of resp tokens net) = Some payload"
    "tok \<in> set (data payload)" "k = tok_key net tok"
    "v = sample_of pyfloat (pools_of (included payload)) tok"
    unfolding response_entries_mem by blast
  with v show ?thesis by blast
qed

section \<open>The result cache is merged, never replaced\<close>

text \<open>
  Claim C10. In a fetch round the result cache of a group is merged per returned token:
  a key that no record of a successful batch of the group has (in particular the key of
  a requested token that the response leaves out) keeps the sample it had; a key that
  such a record has, in a group that is fetched, holds after the round the sample
  parsed from a record with that key; and every key of the cache before the round is a
  key of the cache after it. (The profiles are a dictionary, so the names of the
  groups are distinct.)
\<close>

theorem result_cache_merged_per_token:
  assumes "distinct (map fst (profiles st))"
  shows
    "(k \<notin> set (returned_keys (resp pname) (tokens_for st pname))
        \<longrightarrow> snd (fetch_round pyfloat resp st cache) pname k = cache pname k)
     \<and> (t \<in> set (tokens_for st pname)
          \<and> key_for (network_id t) (address t)
               \<notin> set (returned_keys (resp pname) (tokens_for st pname))
        \<longrightarrow> snd (fetch_round pyfloat resp st cache) pname (key_for (network_id t) (address t))
            = cache pname (key_for (network_id t) (address t)))
     \<and> (pname \<in> set (map fst (profiles st)) \<and> assigned st pname
          \<and> k \<in> set (returned_keys (resp pname) (tokens_for st pname))
        \<longrightarrow> (\<exists>net payload tok.
               net \<in> network_id ` set (tokens_for st pname)
               \<and> batch_payload (batch_of (resp pname) (tokens_for st pname) net) = Some payload
               \<and> tok \<in> set (data payload) \<and> k = tok_key net tok
               \<and> snd (fetch_round pyfloat resp st cache) pname k
                   = Some (sample_of pyfloat (pools_of (included payload)) tok)))
     \<and> (k \<in> set (returned_keys (resp pname) (tokens_for st pname))
        \<longleftrightarrow> (\<exists>net payload tok.
               net \<in> network_id ` set (tokens_for st pname)
               \<and> batch_payload (batch_of (resp pname) (tokens_for st pname) net) = Some payload
               \<and> tok \<in> set (data payload) \<and> k = tok_key net tok))
     \<and> dom (cache pname) \<subseteq> dom (snd (fetch_round pyfloat resp st cache) pname)"
proof -
  let ?toks = "tokens_for st pname"
  let ?c' = "snd (fetch_round pyfloat resp st cache) pname"
  note lk = fetch_round_lookup [OF assms, of pyfloat resp cache pname]
  have a: "k \<notin> set (returned_keys (resp pname) ?toks) \<longrightarrow> ?c' k = cache pname k"
    by (simp add: lk)
  have b: "t \<in> set ?toks
          \<and> key_for (network_id t) (address t) \<notin> set (returned_keys (resp pname) ?toks)
        \<longrightarrow> ?c' (key_for (network_id t) (address t))
            = cache pname (key_for (network_id t) (address t))"
    by (simp add: lk)
  have c: "pname \<in> set (map fst (profiles st)) \<and> assigned st pname
          \<and> k \<in> set (returned_keys (resp pname) ?toks)
        \<longrightarrow> (\<exists>net payload tok.
               net \<in> network_id ` set ?toks
               \<and> batch_payload (batch_of (resp pname) ?toks net) = Some payload
               \<and> tok \<in> set (data payload) \<and> k = tok_key net tok
               \<and> ?c' k = Some (sample_of pyfloat (pools_of (included payload)) tok))"
  proof
    assume h: "pname \<in> set (map fst (profiles st)) \<and> assigned st pname
          \<and> k \<in> set (returned_keys (resp pname) ?toks)"
    then have "?c' k = map_of (rev (response_entries pyfloat (resp pname) ?toks)) k"
      by (simp add: lk)
    with returned_lookup_Some [of k "resp pname" ?toks pyfloat] h
    show "\<exists>net payload tok.
               net \<in> network_id ` set ?toks
               \<and> batch_payload (batch_of (resp pname) ?toks net) = Some payload
               \<and> tok \<in> set (data payload) \<and> k = tok_key net tok
               \<and> ?c' k = Some (sample_of pyfloat (pools_of (included payload)) tok)"
      by simp
  qed
  note d = returned_keys_iff [of k "resp pname" ?toks]
  note e = fetch_round_dom [OF assms, of cache pname pyfloat resp]
  from a b c d e show ?thesis by blast
qed

theorem result_cache_merged_per_token_witness:
  "distinct (map fst (profiles fetch_state))
   \<and> eth_token_b \<in> set (tokens_for fetch_state ''G'')
   \<and> key_for (network_id eth_token_b) (address eth_token_b) = ''eth:0xbbbb''
   \<and> ''eth:0xbbbb'' \<notin> set (returned_keys (fetch_resp ''G'') (tokens_for fetch_state ''G''))
   \<and> fetch_cache ''G'' ''eth:0xbbbb'' = Some (ex_sample 2)
   \<and> snd (fetch_round ex_pyfloat fetch_resp fetch_state fetch_cache) ''G'' ''eth:0xbbbb''
       = Some (ex_sample 2)
   \<and> ''G'' \<in> set (map fst (profiles fetch_state)) \<and> assigned fetch_state ''G''
   \<and> ''eth:0xaaaa'' \<in> set (returned_keys (fetch_resp ''G'') (tokens_for fetch_state ''G''))
   \<and> fetch_cache ''G'' ''eth:0xaaaa'' = Some (ex_sample 1)
   \<and> snd (fetch_round ex_pyfloat fetch_resp fetch_state fetch_cache) ''G'' ''eth:0xaaaa''
       = Some \<lparr>price = Some 10, h24 = Some 5, m5 = Some (- 1)\<rparr>
   \<and> dom (fetch_cache ''G'')
       \<subseteq> dom (snd (fetch_round ex_pyfloat fetch_resp fetch_state fetch_cache) ''G'')"
proof -
  have d: "distinct (map fst (profiles fetch_state))" by code_simp
  note t = result_cache_merged_per_token [OF d, of _ fetch_resp "''G''" ex_pyfloat fetch_cache]
  have m: "eth_token_b \<in> set (tokens_for fetch_state ''G'')" by code_simp
  have kb: "key_for (network_id eth_token_b) (address eth_token_b) = ''eth:0xbbbb''"
    by code_simp
  have nb: "''eth:0xbbbb'' \<notin> set (returned_keys (fetch_resp ''G'') (tokens_for fetch_state ''G''))"
    by code_simp
  have cb: "fetch_cache ''G'' ''eth:0xbbbb'' = Some (ex_sample 2)" by code_simp
  from t [of "''eth:0xbbbb''" eth_token_b] m kb nb cb
  have rb: "snd (fetch_round ex_pyfloat fetch_resp fetch_state fetch_cache) ''G'' ''eth:0xbbbb''
       = Some (ex_sample 2)"
    by simp
  have g: "''G'' \<in> set (map fst (profiles fetch_state))" by code_simp
  have ag: "assigned fetch_state ''G''" by code_simp
  have ka: "''eth:0xaaaa'' \<in> set (returned_keys (fetch_resp ''G'') (tokens_for fetch_state ''G''))"
    by code_simp
  have ca: "fetch_cache ''G'' ''eth:0xaaaa'' = Some (ex_sample 1)" by code_simp
  have ra: "snd (fetch_round ex_pyfloat fetch_resp fetch_state fetch_cache) ''G'' ''eth:0xaaaa''
       = Some \<lparr>price = Some 10, h24 = Some 5, m5 = Some (- 1)\<rparr>"
    by code_simp
  from t [of "''eth:0xbbbb''" eth_token_b]
  have dm: "dom (fetch_cache ''G'')
       \<subseteq> dom (snd (fetch_round ex_pyfloat fetch_resp fetch_state fetch_cache) ''G'')"
    by blast
  from d m kb nb cb rb g ag ka ca ra dm show ?thesis by blast
qed

section \<open>Partial failure isolation\<close>



section \<open>The scheduler loop and exceptions\<close>

lemma ensure_session_trace: "ls_trace (ensure_session st) = ls_trace st @ [EnsureSession]"
  by (simp add: ensure_session_def new_session_def Let_def split: option.split)

lemma ensure_session_open: "session_open (ensure_session st)"
  by (simp add: ensure_session_def new_session_def session_open_def Let_def split: option.split)

lemma ensure_session_keeps:
  "ls_session st = Some s \<Longrightarrow> \<not> session_closed s \<Longrightarrow> ls_session (ensure_session st) = Some s"
  by (simp add: ensure_session_def Let_def)

lemma ensure_session_replaces:
  "ls_session st = None \<or> (\<exists>s. ls_session st = Some s \<and> session_closed s) \<Longrightarrow>
   ls_session (ensure_session st)
     = Some \<lparr>session_id = ls_sessions_made st, session_closed = False\<rparr>"
  by (auto simp: ensure_session_def new_session_def Let_def)

lemma refresh_iterations_recovered:
  "list_all (recovered_round body backoff) [i..<i + n] \<Longrightarrow>
   snd (refresh_iterations n body backoff i st) = None
   \<and> ls_trace (fst (refresh_iterations n body backoff i st))
       = ls_trace st @ concat (map (round_events body) [i..<i + n])"
proof (induction n arbitrary: i st)
  case 0
  show ?case by simp
next
  case (Suc n)
  have u: "[i..<i + Suc n] = i # [Suc i..<Suc i + n]" by (simp add: upt_rec)
  from Suc.prems have r: "recovered_round body backoff i"
    and rest: "list_all (recovered_round body backoff) [Suc i..<Suc i + n]"
    unfolding u by simp_all
  note ih = Suc.IH [OF rest]
  show ?case
  proof (cases "body i")
    case Completed
    then show ?thesis
      unfolding u using ih [of "st\<lparr>ls_trace := ls_trace st @ [Round i]\<rparr>"]
      by (simp add: round_events_def Let_def)
  next
    case (Raised e)
    with r have e: "is_Exception e" and b: "backoff i = None"
      by (simp_all add: recovered_round_def)
    from Raised e b show ?thesis
      unfolding u
      using ih [of "ensure_session
                      (st\<lparr>ls_trace := ls_trace st @ [Round i, LogException e, Sleep 2]\<rparr>)"]
      by (simp add: round_events_def Let_def ensure_session_trace)
  qed
qed

lemma refresh_iterations_handler:
  "body i = Raised e \<Longrightarrow> is_Exception e \<Longrightarrow> backoff i = None \<Longrightarrow>
   refresh_iterations (Suc n) body backoff i st
     = refresh_iterations n body backoff (Suc i)
         (ensure_session (st\<lparr>ls_trace := ls_trace st @ [Round i, LogException e, Sleep 2]\<rparr>))"
  by (simp add: Let_def)

lemma refresh_iterations_uncaught:
  "body i = Raised e \<Longrightarrow> \<not> is_Exception e \<Longrightarrow>
   refresh_iterations (Suc n) body backoff i st
     = (st\<lparr>ls_trace := ls_trace st @ [Round i]\<rparr>, Some e)"
  by (simp add: Let_def)

text \<open>
  Claim C1, as stated, fails for an exception that is not an instance of \<^verbatim>\<open>Exception\<close>:
  when the second round is cancelled (\<^verbatim>\<open>CancelledError\<close>, raised by
  \<^verbatim>\<open>refresh_task.cancel()\<close>), the exception is not caught, nothing is logged, there is no
  backoff and no call of \<^verbatim>\<open>_ensure_session\<close>, and the loop ends.
\<close>

theorem refresh_loop_cancelled_counterexample:
  "cancelled_body 1 = Raised CancelledError
   \<and> snd (refresh_loop 5 cancelled_body no_interrupt ex_loop_state) = Some CancelledError
   \<and> ls_trace (fst (refresh_loop 5 cancelled_body no_interrupt ex_loop_state))
       = [EnsureSession, Round 0, Round 1]"
  by code_simp

text \<open>
  Claim C1, amended. An exception that leaves the body of a round and is an instance
  of \<^verbatim>\<open>Exception\<close> is caught at the round boundary and logged, the loop sleeps 2
  seconds and calls \<^verbatim>\<open>_ensure_session\<close>, and, when that sleep is not interrupted, goes
  on with the next iteration. So when every round of the first \<open>n\<close> ends normally or
  raises such an exception, the loop is still running after \<open>n\<close> iterations, for every
  \<open>n\<close>, and its trace is the first call of \<^verbatim>\<open>_ensure_session\<close> followed by the events of
  these rounds. After \<^verbatim>\<open>_ensure_session\<close> the session is open: an open session is
  kept, a missing or closed one is replaced by a new one. An exception that is not an
  instance of \<^verbatim>\<open>Exception\<close> is not caught: it ends the loop.
\<close>

theorem refresh_loop_recovers:
  "(body i = Raised e \<and> is_Exception e \<and> backoff i = None
      \<longrightarrow> refresh_iterations (Suc n) body backoff i st
          = refresh_iterations n body backoff (Suc i)
              (ensure_session
                 (st\<lparr>ls_trace := ls_trace st @ [Round i, LogException e, Sleep 2]\<rparr>)))
   \<and> (list_all (recovered_round body backoff) [0..<n]
      \<longrightarrow> snd (refresh_loop n body backoff st) = None
          \<and> ls_trace (fst (refresh_loop n body backoff st))
              = ls_trace st @ EnsureSession # concat (map (round_events body) [0..<n]))
   \<and> session_open (ensure_session st)
   \<and> (ls_session st = Some s \<and> \<not> session_closed s
      \<longrightarrow> ls_session (ensure_session st) = Some s)
   \<and> (ls_session st = None \<or> (ls_session st = Some s \<and> session_closed s)
      \<longrightarrow> ls_session (ensure_session st)
          = Some \<lparr>session_id = ls_sessions_made st, session_closed = False\<rparr>)
   \<and> (body i = Raised e \<and> \<not> is_Exception e
      \<longrightarrow> refresh_iterations (Suc n) body backoff i st
          = (st\<lparr>ls_trace := ls_trace st @ [Round i]\<rparr>, Some e))"
proof -
  have a: "body i = Raised e \<and> is_Exception e \<and> backoff i = None
      \<longrightarrow> refresh_iterations (Suc n) body backoff i st
          = refresh_iterations n body backoff (Suc i)
              (ensure_session
                 (st\<lparr>ls_trace := ls_trace st @ [Round i, LogException e, Sleep 2]\<rparr>))"
    using refresh_iterations_handler [of body i e backoff n st] by blast
  have b: "list_all (recovered_round body backoff) [0..<n]
      \<longrightarrow> snd (refresh_loop n body backoff st) = None
          \<and> ls_trace (fst (refresh_loop n body backoff st))
              = ls_trace st @ EnsureSession # concat (map (round_events body) [0..<n])"
  proof
    assume "list_all (recovered_round body backoff) [0..<n]"
    then have "list_all (recovered_round body backoff) [0..<0 + n]" by simp
    from refresh_iterations_recovered [OF this, of "ensure_session st"]
    show "snd (refresh_loop n body backoff st) = None
          \<and> ls_trace (fst (refresh_loop n body backoff st))
              = ls_trace st @ EnsureSession # concat (map (round_events body) [0..<n])"
      by (simp add: refresh_loop_def ensure_session_trace)
  qed
  have c: "session_open (ensure_session st)" by (rule ensure_session_open)
  have d: "ls_session st = Some s \<and> \<not> session_closed s
      \<longrightarrow> ls_session (ensure_session st) = Some s"
    using ensure_session_keeps [of st s] by blast
  have f: "ls_session st = None \<or> (ls_session st = Some s \<and> session_closed s)
      \<longrightarrow> ls_session (ensure_session st)
          = Some \<lparr>session_id = ls_sessions_made st, session_closed = False\<rparr>"
    using ensure_session_replaces [of st] by blast
  have g: "body i = Raised e \<and> \<not> is_Exception e
      \<longrightarrow> refresh_iterations (Suc n) body backoff i st
          = (st\<lparr>ls_trace := ls_trace st @ [Round i]\<rparr>, Some e)"
    using refresh_iterations_uncaught [of body i e n backoff st] by blast
  from a b c d f g show ?thesis by blast
qed

theorem refresh_loop_recovers_witness:
  "ex_body 1 = Raised (Exc ''KeyError'') \<and> is_Exception (Exc ''KeyError'')
   \<and> no_interrupt 1 = None
   \<and> refresh_iterations (Suc 0) ex_body no_interrupt 1 ex_loop_state
       = (ensure_session
            (ex_loop_state\<lparr>ls_trace := [Round 1, LogException (Exc ''KeyError''), Sleep 2]\<rparr>),
          None)
   \<and> list_all (recovered_round ex_body no_interrupt) [0..<5]
   \<and> snd (refresh_loop 5 ex_body no_interrupt ex_loop_state) = None
   \<and> ls_trace (fst (refresh_loop 5 ex_body no_interrupt ex_loop_state))
       = [EnsureSession, Round 0,
          Round 1, LogException (Exc ''KeyError''), Sleep 2, EnsureSession,
          Round 2,
          Round 3, LogException (Exc ''ClientConnectionError''), Sleep 2, EnsureSession,
          Round 4]
   \<and> ls_session ex_loop_state = None
   \<and> ls_session (ensure_session ex_loop_state)
       = Some \<lparr>session_id = 0, session_closed = False\<rparr>
   \<and> ls_session (ensure_session (ensure_session ex_loop_state))
       = Some \<lparr>session_id = 0, session_closed = False\<rparr>
   \<and> cancelled_body 1 = Raised CancelledError \<and> \<not> is_Exception CancelledError
   \<and> snd (refresh_iterations 4 cancelled_body no_interrupt 1 ex_loop_state)
       = Some CancelledError"
proof -
  have h1: "ex_body 1 = Raised (Exc ''KeyError'')" by (simp add: ex_body_def)
  have h2: "is_Exception (Exc ''KeyError'')" by simp
  have h3: "no_interrupt 1 = None" by (simp add: no_interrupt_def)
  have t0: "ls_trace ex_loop_state = []" by (simp add: ex_loop_state_def)
  from refresh_loop_recovers [of ex_body 1 "Exc ''KeyError''" no_interrupt 0 ex_loop_state]
    h1 h2 h3 t0
  have r0: "refresh_iterations (Suc 0) ex_body no_interrupt 1 ex_loop_state
       = (ensure_session
            (ex_loop_state\<lparr>ls_trace := [Round 1, LogException (Exc ''KeyError''), Sleep 2]\<rparr>),
          None)"
    by simp
  have h4: "list_all (recovered_round ex_body no_interrupt) [0..<5]" by code_simp
  note t = refresh_loop_recovers [of ex_body _ _ no_interrupt 5 ex_loop_state]
  from t h4 have r1: "snd (refresh_loop 5 ex_body no_interrupt ex_loop_state) = None"
    by blast
  from t h4 have "ls_trace (fst (refresh_loop 5 ex_body no_interrupt ex_loop_state))
       = ls_trace ex_loop_state @ EnsureSession # concat (map (round_events ex_body) [0..<5])"
    by blast
  moreover have "ls_trace ex_loop_state @ EnsureSession # concat (map (round_events ex_body) [0..<5])
       = [EnsureSession, Round 0,
          Round 1, LogException (Exc ''KeyError''), Sleep 2, EnsureSession,
          Round 2,
          Round 3, LogException (Exc ''ClientConnectionError''), Sleep 2, EnsureSession,
          Round 4]"
    by code_simp
  ultimately have r2: "ls_trace (fst (refresh_loop 5 ex_body no_interrupt ex_loop_state))
       = [EnsureSession, Round 0,
          Round 1, LogException (Exc ''KeyError''), Sleep 2, EnsureSession,
          Round 2,
          Round 3, LogException (Exc ''ClientConnectionError''), Sleep 2, EnsureSession,
          Round 4]"
    by simp
  have s0: "ls_session ex_loop_state = None" by (simp add: ex_loop_state_def)
  have m0: "ls_sessions_made ex_loop_state = 0" by (simp add: ex_loop_state_def)
  from refresh_loop_recovers [of _ _ _ _ _ ex_loop_state] s0 m0
  have s1: "ls_session (ensure_session ex_loop_state)
       = Some \<lparr>session_id = 0, session_closed = False\<rparr>"
    by simp
  from refresh_loop_recovers [of _ _ _ _ _ "ensure_session ex_loop_state"
         "\<lparr>session_id = 0, session_closed = False\<rparr>"] s1
  have s2: "ls_session (ensure_session (ensure_session ex_loop_state))
       = Some \<lparr>session_id = 0, session_closed = False\<rparr>"
    by simp
  have h5: "cancelled_body 1 = Raised CancelledError" by (simp add: cancelled_body_def)
  have h6: "\<not> is_Exception CancelledError" by simp
  from refresh_loop_recovers [of cancelled_body 1 CancelledError no_interrupt 3 ex_loop_state]
    h5 h6
  have r3: "snd (refresh_iterations 4 cancelled_body no_interrupt 1 ex_loop_state)
       = Some CancelledError"
    by (simp add: numeral_eq_Suc)
  from h1 h2 h3 r0 h4 r1 r2 s0 s1 s2 h5 h6 r3 show ?thesis by blast
qed

end
